theory Spec2Isabelle
  imports Complex_Main
begin

section \<open>JavaScript values as the component sees them\<close>

text \<open>
  The component of \<^verbatim>\<open>src/unnamed/part_000\<close> (the most complete of the three revisions)
  receives its data from \<^verbatim>\<open>response.json()\<close>, so every value it handles is a JSON
  value, or \<^verbatim>\<open>undefined\<close> when a property is absent. The component never computes with
  a number: it tests it for truth and converts it to text. A number is therefore carried
  by the text that \<^verbatim>\<open>String\<close> gives for it (\<^verbatim>\<open>1\<close>, \<^verbatim>\<open>0.5\<close>, \<^verbatim>\<open>1e+21\<close>, \<^verbatim>\<open>Infinity\<close>),
  which names the double; both zeros are \<^verbatim>\<open>0\<close>. Strings are lists of 8-bit
  characters, standing for code units below 256. An object is the list of its own
  enumerable properties in the order \<^verbatim>\<open>Object.keys\<close> lists them.
\<close>

datatype jsval =
    Undefined
  | Null
  | Bool bool
  | Num string
  | Str string
  | Arr "jsval list"
  | Obj "(string \<times> jsval) list"

text \<open>\<^verbatim>\<open>!v\<close> is \<open>\<not> truthy v\<close>; \<^verbatim>\<open>a || b\<close> is \<open>or_js a b\<close>.\<close>

fun truthy :: "jsval \<Rightarrow> bool" where
  "truthy Undefined = False"
| "truthy Null = False"
| "truthy (Bool b) = b"
| "truthy (Num n) = (n \<noteq> ''0'' \<and> n \<noteq> ''NaN'')"
| "truthy (Str s) = (s \<noteq> [])"
| "truthy (Arr xs) = True"
| "truthy (Obj kvs) = True"

definition or_js :: "jsval \<Rightarrow> jsval \<Rightarrow> jsval" where
  "or_js a b = (if truthy a then a else b)"

fun nullish :: "jsval \<Rightarrow> bool" where
  "nullish Undefined = True"
| "nullish Null = True"
| "nullish v = False"

fun isArray :: "jsval \<Rightarrow> bool" where
  "isArray (Arr xs) = True"
| "isArray v = False"

subsection \<open>Decimal numerals\<close>

text \<open>The text of a natural number below \<open>2 ^ 53\<close>: a length, an index, a status code.\<close>

definition digit :: "nat \<Rightarrow> char" where
  "digit d = ''0123456789'' ! (d mod 10)"

fun showNat :: "nat \<Rightarrow> string" where
  "showNat n = (if n < 10 then [digit n] else showNat (n div 10) @ [digit n])"

declare showNat.simps [simp del]

subsection \<open>Property access\<close>

text \<open>
  \<open>indexKeys n\<close> are the keys \<^verbatim>\<open>"0"\<close>, ..., \<^verbatim>\<open>"n-1"\<close> of an array or a string of length
  \<open>n\<close>. \<open>own v k\<close> is the own property \<open>k\<close> of \<open>v\<close>, if \<open>v\<close> has one.
\<close>

definition indexKeys :: "nat \<Rightarrow> string list" where
  "indexKeys n = map showNat [0..<n]"

definition elemAt :: "'a list \<Rightarrow> string \<Rightarrow> 'a option" where
  "elemAt xs k = map_option (\<lambda>i. xs ! i) (find (\<lambda>i. showNat i = k) [0..<length xs])"

fun own :: "jsval \<Rightarrow> string \<Rightarrow> jsval option" where
  "own (Obj kvs) k = map_of kvs k"
| "own (Arr xs) k =
     (if k = ''length'' then Some (Num (showNat (length xs))) else elemAt xs k)"
| "own (Str s) k =
     (if k = ''length'' then Some (Num (showNat (length s)))
      else map_option (\<lambda>c. Str [c]) (elemAt s k))"
| "own v k = None"

text \<open>
  \<open>get v k\<close> is \<^verbatim>\<open>v?.k\<close> for one of the fixed keys the handlers read (\<^verbatim>\<open>ok\<close>, \<^verbatim>\<open>error\<close>,
  \<^verbatim>\<open>dataset_id\<close>, \<^verbatim>\<open>filename\<close>, \<^verbatim>\<open>preview\<close>, \<^verbatim>\<open>head\<close>, \<^verbatim>\<open>assistant_message\<close>, \<^verbatim>\<open>reply\<close>,
  \<^verbatim>\<open>message\<close>, \<^verbatim>\<open>results\<close>, \<^verbatim>\<open>forecast_head\<close>, \<^verbatim>\<open>forecast_tail\<close>): no prototype of a
  JSON value defines a member of such a name, so the read gives the own property, or
  \<^verbatim>\<open>undefined\<close>. A plain \<^verbatim>\<open>v.k\<close> throws a TypeError on \<^verbatim>\<open>null\<close>; the handlers below write
  that case out where it can arise. The read \<^verbatim>\<open>r[c]\<close> of \<^verbatim>\<open>DataTable\<close>, whose key is any
  column name, is \<open>lookup\<close> below.
\<close>

definition get :: "jsval \<Rightarrow> string \<Rightarrow> jsval" where
  "get v k = (case own v k of Some x \<Rightarrow> x | None \<Rightarrow> Undefined)"

text \<open>\<^verbatim>\<open>Object.keys(v)\<close> for a value that is not \<^verbatim>\<open>null\<close> or \<^verbatim>\<open>undefined\<close>.\<close>

fun keys_js :: "jsval \<Rightarrow> string list" where
  "keys_js (Obj kvs) = map fst kvs"
| "keys_js (Arr xs) = indexKeys (length xs)"
| "keys_js (Str s) = indexKeys (length s)"
| "keys_js v = []"

subsection \<open>String conversion\<close>

text \<open>\<^verbatim>\<open>Array.prototype.join\<close> with the default separator, on the texts of the elements.\<close>

fun join_js :: "string list \<Rightarrow> string" where
  "join_js [] = []"
| "join_js [s] = s"
| "join_js (s # r # rs) = s @ '','' @ join_js (r # rs)"

text \<open>
  \<^verbatim>\<open>String(v)\<close>, which is also what a template literal, the \<^verbatim>\<open>Error\<close> constructor and the
  concatenation with a string apply to a value; \<open>None\<close> when the conversion throws. An
  object converts through its \<^verbatim>\<open>toString\<close>: the inherited one gives
  \<^verbatim>\<open>[object Object]\<close>, but an own property of that name, which in a JSON value is never a
  function, leaves no way to a primitive (the inherited \<^verbatim>\<open>valueOf\<close> returns the object),
  and the conversion throws a TypeError. An array joins the texts of its elements, and
  throws when one of them does.
\<close>

fun String_js :: "jsval \<Rightarrow> string option" where
  "String_js Undefined = Some ''undefined''"
| "String_js Null = Some ''null''"
| "String_js (Bool b) = Some (if b then ''true'' else ''false'')"
| "String_js (Num n) = Some n"
| "String_js (Str s) = Some s"
| "String_js (Arr xs) =
     map_option join_js (those (map (\<lambda>x. if nullish x then Some [] else String_js x) xs))"
| "String_js (Obj kvs) =
     (if map_of kvs ''toString'' = None then Some ''[object Object]'' else None)"

text \<open>The message of that TypeError (V8's wording), and the conversion inside a \<^verbatim>\<open>try\<close>.\<close>

definition cannotConvert :: string where
  "cannotConvert = ''Cannot convert object to primitive value''"

definition toText :: "jsval \<Rightarrow> string + string" where
  "toText v = (case String_js v of Some s \<Rightarrow> Inr s | None \<Rightarrow> Inl cannotConvert)"

text \<open>\<^verbatim>\<open>a + s\<close> for a string \<open>s\<close>: the text of \<open>a\<close>, then \<open>s\<close>.\<close>

definition concat_js :: "jsval \<Rightarrow> string \<Rightarrow> string + jsval" where
  "concat_js a s = (case toText a of Inl e \<Rightarrow> Inl e | Inr t \<Rightarrow> Inr (Str (t @ s)))"

text \<open>
  \<^verbatim>\<open>String.prototype.trim\<close>: the white space and line terminators among the code units
  below 256 are TAB, LF, VT, FF, CR, SPACE and NBSP.
\<close>

definition isWhiteSpace :: "char \<Rightarrow> bool" where
  "isWhiteSpace c = (c \<in> set [CHR 0x09, CHR 0x0A, CHR 0x0B, CHR 0x0C, CHR 0x0D, CHR 0x20, CHR 0xA0])"

definition trim :: "string \<Rightarrow> string" where
  "trim s = rev (dropWhile isWhiteSpace (rev (dropWhile isWhiteSpace s)))"

text \<open>
  \<^verbatim>\<open>t.indexOf(m)\<close>: the least position at which \<open>m\<close> starts in \<open>t\<close>, or \<open>-1\<close>.
\<close>

fun indexOf :: "string \<Rightarrow> string \<Rightarrow> int" where
  "indexOf [] m = (if m = [] then 0 else - 1)"
| "indexOf (c # cs) m =
     (if take (length m) (c # cs) = m then 0
      else (let i = indexOf cs m in if i = - 1 then - 1 else i + 1))"

section \<open>Response rendering\<close>

subsection \<open>cleanAssistantText\<close>

definition cutMarkers :: "string list" where
  "cutMarkers =
     [''Forecast (head):'',
      ''Forecast(head):'',
      ''Forecast head:'',
      ''Forecast (tail):'',
      ''Forecast(tail):'',
      ''Forecast tail:'',
      ''\<newline>Results:'',
      ''Results:'']"

text \<open>One turn of the loop over the markers, and the loop from \<^verbatim>\<open>idx = -1\<close>.\<close>

definition cutStep :: "string \<Rightarrow> int \<Rightarrow> string \<Rightarrow> int" where
  "cutStep t idx m =
     (let i = indexOf t m
      in if i \<noteq> - 1 then (if idx = - 1 then i else min idx i) else idx)"

definition cutIndex :: "string \<Rightarrow> int" where
  "cutIndex t = foldl (cutStep t) (- 1) cutMarkers"

text \<open>
  \<open>Inr\<close> the text returned; \<open>Inl\<close> the message of the TypeError when \<^verbatim>\<open>String(text)\<close>
  throws (the argument is \<^verbatim>\<open>msg.assistantText\<close>, any truthy value of the response).
\<close>

definition cleanAssistantText :: "jsval \<Rightarrow> string + string" where
  "cleanAssistantText text' =
     (if \<not> truthy text' then Inr []
      else
        (case toText text' of
           Inl e \<Rightarrow> Inl e
         | Inr t \<Rightarrow>
             let idx = cutIndex t;
                 t = (if idx \<noteq> - 1 then take (nat idx) t else t);
                 t = trim t
             in Inr (if t = [] then ''Forecast completed.'' else t)))"

text \<open>
  What the text says of \<^verbatim>\<open>cleanAssistantText\<close>, to compare the loop with: the marker
  \<open>m\<close> starts at position \<open>i\<close> of \<open>t\<close>, and some marker of the fixed set does.
\<close>

definition occursAt :: "string \<Rightarrow> string \<Rightarrow> nat \<Rightarrow> bool" where
  "occursAt m t i = (i \<le> length t \<and> take (length m) (drop i t) = m)"

definition markerAt :: "string \<Rightarrow> nat \<Rightarrow> bool" where
  "markerAt t i = (\<exists>m \<in> set cutMarkers. occursAt m t i)"

subsection \<open>DataTable\<close>

text \<open>
  The read \<^verbatim>\<open>r?.[c]\<close> of a cell goes through the prototype chain of the row: a key that
  is not an own property of the row can still name a member the row inherits
  (\<^verbatim>\<open>constructor\<close>, \<^verbatim>\<open>toString\<close>, ... of \<^verbatim>\<open>Object.prototype\<close>; the methods of
  \<^verbatim>\<open>Array.prototype\<close> for an array). Which names those are is the host's: \<open>proto r c\<close> is
  \<open>Some\<close> of the text \<^verbatim>\<open>String\<close> gives for the member that \<open>r\<close> inherits under the name
  \<open>c\<close>, and \<open>None\<close> when it inherits none. An inherited member is a built-in function or
  a prototype object: it is neither \<^verbatim>\<open>null\<close> nor \<^verbatim>\<open>undefined\<close>.
\<close>

type_synonym proto = "jsval \<Rightarrow> string \<Rightarrow> string option"

datatype member = Value jsval | Inherited string

definition lookup :: "proto \<Rightarrow> jsval \<Rightarrow> string \<Rightarrow> member" where
  "lookup proto r c =
     (if nullish r then Value Undefined
      else case own r c of
             Some v \<Rightarrow> Value v
           | None \<Rightarrow> (case proto r c of Some txt \<Rightarrow> Inherited txt | None \<Rightarrow> Value Undefined))"

text \<open>
  What \<^verbatim>\<open>DataTable\<close> puts on the page, without the styling: the optional title line, the
  header cells and the body cells; \<open>None\<close> is the \<^verbatim>\<open>null\<close> of a table that is not drawn,
  \<open>Inl\<close> the message of the TypeError when the text of a cell cannot be taken.
  A JavaScript \<^verbatim>\<open>Set\<close> keeps its elements in insertion order: \<open>colSet_add\<close> is its
  \<^verbatim>\<open>add\<close> on the list of elements. \<open>rowKeys r\<close> is \<^verbatim>\<open>Object.keys(r || {})\<close>.
\<close>

record table =
  heading :: "string option"
  columns :: "string list"
  body :: "string list list"

definition colSet_add :: "string \<Rightarrow> string list \<Rightarrow> string list" where
  "colSet_add k colSet = (if k \<in> set colSet then colSet else colSet @ [k])"

definition rowKeys :: "jsval \<Rightarrow> string list" where
  "rowKeys r = keys_js (or_js r (Obj []))"

definition collectColumns :: "jsval list \<Rightarrow> string list" where
  "collectColumns rows =
     foldl (\<lambda>colSet r. foldl (\<lambda>colSet k. colSet_add k colSet) colSet (rowKeys r)) [] rows"

text \<open>
  The union of keys in first-seen order, to compare \<open>collectColumns\<close> with: every element
  once, at the place of its first occurrence.
\<close>

fun firstSeen :: "'a list \<Rightarrow> 'a list" where
  "firstSeen [] = []"
| "firstSeen (x # xs) = x # filter (\<lambda>y. y \<noteq> x) (firstSeen xs)"

text \<open>
  \<^verbatim>\<open>r?.[c] === null || r?.[c] === undefined ? '' : String(r[c])\<close>; \<open>None\<close> when
  \<^verbatim>\<open>String\<close> throws.
\<close>

definition cell :: "proto \<Rightarrow> jsval \<Rightarrow> string \<Rightarrow> string option" where
  "cell proto r c =
     (case lookup proto r c of
        Inherited txt \<Rightarrow> Some txt
      | Value v \<Rightarrow> if v = Null \<or> v = Undefined then Some [] else String_js v)"

definition DataTable :: "proto \<Rightarrow> jsval \<Rightarrow> string option \<Rightarrow> string + table option" where
  "DataTable proto rows title =
     (case rows of
        Arr rs \<Rightarrow>
          if rs = [] then Inr None
          else
            let columns = collectColumns rs
            in (case those (map (\<lambda>r. those (map (\<lambda>c. cell proto r c) columns)) rs) of
                  None \<Rightarrow> Inl cannotConvert
                | Some cells \<Rightarrow>
                    Inr (Some \<lparr>heading = (case title of Some s \<Rightarrow> if s \<noteq> [] then Some s else None
                                          | None \<Rightarrow> None),
                               columns = columns,
                               body = cells\<rparr>))
      | _ \<Rightarrow> Inr None)"

section \<open>The message log and the session state\<close>

subsection \<open>Message ids\<close>

text \<open>
  A message id is \<^verbatim>\<open>Date.now() + Math.random()\<close>, an addition of two doubles: the exact
  sum rounded to the nearest double, ties to the even one. \<open>fl\<close> is that rounding on the
  rationals, for values below \<open>2 ^ 1024\<close>: \<open>expo n\<close> is the exponent \<open>k\<close> with
  \<open>2 ^ k \<le> n < 2 ^ (k + 1)\<close> of a positive integer, \<open>ilog2 x\<close> the same of a positive
  rational, doubles of that binade are \<open>2 ^ (e - 52)\<close>
  apart (from the exponent \<open>-1022\<close> down they keep that distance), and \<open>roundEven\<close> rounds
  to the nearest integer, ties to even.
\<close>

function expo :: "int \<Rightarrow> nat" where
  "expo n = (if n < 2 then 0 else Suc (expo (n div 2)))"
  by pat_completeness auto
termination
  by (relation "measure nat") auto

declare expo.simps [simp del]

definition ilog2 :: "rat \<Rightarrow> int" where
  "ilog2 x =
     (if 1 \<le> x then int (expo \<lfloor>x\<rfloor>)
      else - int (Suc (expo (\<lceil>1 / x\<rceil> - 1))))"

definition pow2 :: "int \<Rightarrow> rat" where
  "pow2 e = (if 0 \<le> e then 2 ^ nat e else 1 / 2 ^ nat (- e))"

definition roundEven :: "rat \<Rightarrow> int" where
  "roundEven q =
     (let f = \<lfloor>q\<rfloor>; d = q - of_int f
      in if d < 1 / 2 then f
         else if 1 / 2 < d then f + 1
         else if even f then f else f + 1)"

definition fl :: "rat \<Rightarrow> rat" where
  "fl x =
     (if x = 0 then 0
      else
        let a = \<bar>x\<bar>;
            e = max (ilog2 a) (- 1022);
            u = pow2 (e - 52)
        in sgn x * (u * of_int (roundEven (a / u))))"

text \<open>
  The two readings come from the environment, so every append takes them as a \<open>tick\<close>:
  \<open>now\<close> is the integer of \<^verbatim>\<open>Date.now()\<close> (a time value, below \<open>2 ^ 53\<close> in magnitude, so
  a double as it is) and \<open>random\<close> the double of \<^verbatim>\<open>Math.random()\<close>, from 0 up to but not
  including 1.
\<close>

record tick =
  now :: int
  random :: rat

definition freshId :: "tick \<Rightarrow> rat" where
  "freshId t = fl (of_int (now t) + random t)"

subsection \<open>Messages and state\<close>

datatype sender = user | bot

datatype kind = upload_preview | forecast

text \<open>
  The fields a message has beside \<^verbatim>\<open>id\<close>, \<^verbatim>\<open>sender\<close> and \<^verbatim>\<open>isError\<close>: a \<^verbatim>\<open>text\<close>
  and no \<^verbatim>\<open>kind\<close>; or \<^verbatim>\<open>filename\<close>, \<^verbatim>\<open>dataset_id\<close> and \<^verbatim>\<open>headRows\<close> of kind
  \<^verbatim>\<open>upload_preview\<close>; or \<^verbatim>\<open>assistantText\<close> and \<^verbatim>\<open>results\<close> of kind \<^verbatim>\<open>forecast\<close>.
  A message written without \<^verbatim>\<open>isError\<close> has it \<open>False\<close> here (the page only tests it).
\<close>

datatype payload =
    PlainText string
  | UploadPreview jsval jsval "jsval list"
  | Forecast jsval jsval

record message =
  msg_id :: rat
  sender :: sender
  isError :: bool
  payload :: payload

fun kind_of :: "payload \<Rightarrow> kind option" where
  "kind_of (PlainText s) = None"
| "kind_of (UploadPreview f d rs) = Some upload_preview"
| "kind_of (Forecast a r) = Some forecast"

definition kind :: "message \<Rightarrow> kind option" where
  "kind m = kind_of (payload m)"

datatype fileObj = File (name: string)

datatype request =
    UploadRequest fileObj
  | ChatRequest jsval string bool

text \<open>
  A chat request is its JSON body: \<^verbatim>\<open>dataset_id\<close>, \<^verbatim>\<open>message\<close> and \<^verbatim>\<open>show_code\<close>.
  The component's state hooks, then the two things outside it that the handlers touch:
  the requests sent with \<^verbatim>\<open>fetch\<close>, in order, and the \<^verbatim>\<open>value\<close> of the file picker.
\<close>

record state =
  messages :: "message list"
  input :: string
  isLoading :: bool
  datasetId :: jsval
  fileName :: jsval
  uploadError :: string
  chatError :: string
  requests :: "request list"
  pickerValue :: string

definition initial :: state where
  "initial =
     \<lparr>messages = [\<lparr>msg_id = 1, sender = bot, isError = False,
                    payload = PlainText ''Hello! Upload a CSV file to begin.''\<rparr>],
      input = [], isLoading = False, datasetId = Null, fileName = Str [],
      uploadError = [], chatError = [], requests = [], pickerValue = []\<rparr>"

definition append_message :: "message \<Rightarrow> state \<Rightarrow> state" where
  "append_message m st = st\<lparr>messages := messages st @ [m]\<rparr>"

definition addBotMessage :: "tick \<Rightarrow> string \<Rightarrow> bool \<Rightarrow> state \<Rightarrow> state" where
  "addBotMessage t txt isErr =
     append_message \<lparr>msg_id = freshId t, sender = bot, isError = isErr, payload = PlainText txt\<rparr>"

definition addBotPreviewMessage :: "tick \<Rightarrow> jsval \<Rightarrow> jsval \<Rightarrow> jsval \<Rightarrow> state \<Rightarrow> state" where
  "addBotPreviewMessage t filename dataset_id headRows =
     append_message \<lparr>msg_id = freshId t, sender = bot, isError = False,
       payload = UploadPreview filename dataset_id (case headRows of Arr rs \<Rightarrow> rs | _ \<Rightarrow> [])\<rparr>"

definition addBotForecastMessage :: "tick \<Rightarrow> jsval \<Rightarrow> jsval \<Rightarrow> jsval \<Rightarrow> state \<Rightarrow> state" where
  "addBotForecastMessage t assistantText results isErr =
     append_message \<lparr>msg_id = freshId t, sender = bot, isError = truthy isErr,
       payload = Forecast (or_js assistantText (Str [])) (or_js results Null)\<rparr>"

definition addUserMessage :: "tick \<Rightarrow> string \<Rightarrow> state \<Rightarrow> state" where
  "addUserMessage t txt =
     append_message \<lparr>msg_id = freshId t, sender = user, isError = False, payload = PlainText txt\<rparr>"

section \<open>The two requests\<close>

text \<open>
  What \<^verbatim>\<open>await fetch(...)\<close> gives: a rejection (the network error, by its \<^verbatim>\<open>message\<close>), or
  a response with its status and what \<^verbatim>\<open>await response.json()\<close> gives, \<open>Inl\<close> the message
  of the error a body that is not JSON raises. \<^verbatim>\<open>response.ok\<close> is a status from 200 to 299.
  An exception is modelled by its \<^verbatim>\<open>message\<close>, the one thing the \<^verbatim>\<open>catch\<close> blocks read.
\<close>

record response =
  status :: nat
  json :: "string + jsval"

datatype fetched = Rejected string | Resolved response

definition response_ok :: "response \<Rightarrow> bool" where
  "response_ok r = (200 \<le> status r \<and> status r \<le> 299)"

text \<open>The message of the TypeError of reading property \<open>k\<close> of \<^verbatim>\<open>null\<close> (V8's wording).\<close>

definition cannotRead :: "string \<Rightarrow> string" where
  "cannotRead k = ''Cannot read properties of null (reading '' @ [CHR 0x27] @ k @ [CHR 0x27] @ '')''"

text \<open>
  \<^verbatim>\<open>throw new Error(v)\<close> inside a \<^verbatim>\<open>try\<close>: the message thrown is the text of \<open>v\<close>, or
  that of the TypeError when taking the text throws first.
\<close>

definition throwError :: "jsval \<Rightarrow> string + 'a" where
  "throwError v = (case toText v of Inl e \<Rightarrow> Inl e | Inr m \<Rightarrow> Inl m)"

subsection \<open>handleFileUpload\<close>

text \<open>
  The \<^verbatim>\<open>try\<close> block after the request is sent: \<open>Inl\<close> the message of what it throws, \<open>Inr\<close>
  the state it leaves. No statement before the last \<^verbatim>\<open>throw\<close> changes the state.
\<close>

definition upload_try :: "fileObj \<Rightarrow> fetched \<Rightarrow> tick \<Rightarrow> tick \<Rightarrow> state \<Rightarrow> string + state" where
  \<open>upload_try file' res t1 t2 st =
     (case res of
        Rejected m \<Rightarrow> Inl m
      | Resolved r \<Rightarrow>
          if \<not> response_ok r then Inl (''Upload failed: '' @ showNat (status r))
          else
            (case json r of
               Inl m \<Rightarrow> Inl m
             | Inr data \<Rightarrow>
                 if nullish data then Inl (cannotRead ''ok'')
                 else if \<not> truthy (get data ''ok'')
                 then throwError (or_js (get data ''error'') (Str ''Upload failed''))
                 else
                   let st = st\<lparr>datasetId := get data ''dataset_id''\<rparr>;
                       st = st\<lparr>fileName := or_js (get data ''filename'') (Str (name file'))\<rparr>;
                       st = addBotPreviewMessage t1
                              (or_js (get data ''filename'') (Str (name file')))
                              (get data ''dataset_id'')
                              (or_js (get (get data ''preview'') ''head'') (Arr []))
                              st
                   in Inr (addBotMessage t2
                        ''Now type a message like "hi" to get the plan and proposed ds/y, then reply "confirm".''
                        False st)))\<close>

text \<open>
  The handler of the file picker's \<^verbatim>\<open>change\<close> event: \<open>ev\<close> is \<^verbatim>\<open>e.target.files?.[0]\<close>,
  \<open>res\<close> what the request gives, \<open>t1\<close> and \<open>t2\<close> the readings of the first and the second
  append.
\<close>

definition handleFileUpload :: "fileObj option \<Rightarrow> fetched \<Rightarrow> tick \<Rightarrow> tick \<Rightarrow> state \<Rightarrow> state" where
  "handleFileUpload ev res t1 t2 st =
     (case ev of
        None \<Rightarrow> st
      | Some file' \<Rightarrow>
          let st = st\<lparr>uploadError := []\<rparr>;
              st = st\<lparr>chatError := []\<rparr>;
              st = st\<lparr>isLoading := True\<rparr>;
              st = st\<lparr>requests := requests st @ [UploadRequest file']\<rparr>;
              st = (case upload_try file' res t1 t2 st of
                      Inr st' \<Rightarrow> st'
                    | Inl m \<Rightarrow>
                        let msg = (if m \<noteq> [] then m else ''Failed to upload file.'');
                            st = st\<lparr>uploadError := msg\<rparr>
                        in addBotMessage t1 (''Upload error: '' @ msg) True st);
              st = st\<lparr>isLoading := False\<rparr>
          in st\<lparr>pickerValue := []\<rparr>)"

subsection \<open>handleSend\<close>

text \<open>
  \<open>replyText data\<close> is \<^verbatim>\<open>data.assistant_message || data.reply || data.message || ""\<close>.
  \<open>stringify v\<close> stands for the runtime's \<^verbatim>\<open>JSON.stringify(v, null, 2)\<close>. The two
  \<^verbatim>\<open>+=\<close> take the text of what \<^verbatim>\<open>botMessageText\<close> holds, and the second the text of
  \<^verbatim>\<open>data.error\<close> before that; either throws when the text cannot be taken. A value that is
  not a string has no \<^verbatim>\<open>trim\<close> to call: the TypeError of the last case (V8's wording).
\<close>

definition replyText :: "jsval \<Rightarrow> jsval" where
  "replyText data =
     or_js (or_js (or_js (get data ''assistant_message'') (get data ''reply''))
              (get data ''message''))
       (Str [])"

definition plainText :: "(jsval \<Rightarrow> string) \<Rightarrow> jsval \<Rightarrow> jsval \<Rightarrow> jsval \<Rightarrow> string + jsval" where
  "plainText stringify assistantText results err =
     (case (if truthy results
            then concat_js assistantText (''\<newline>\<newline>Results:\<newline>'' @ stringify results)
            else Inr assistantText) of
        Inl e \<Rightarrow> Inl e
      | Inr botMessageText \<Rightarrow>
          if truthy err
          then (case toText err of
                  Inl e \<Rightarrow> Inl e
                | Inr errText \<Rightarrow> concat_js botMessageText (''\<newline>\<newline>Error:\<newline>'' @ errText))
          else Inr botMessageText)"

definition chat_try :: "(jsval \<Rightarrow> string) \<Rightarrow> fetched \<Rightarrow> tick \<Rightarrow> state \<Rightarrow> string + state" where
  "chat_try stringify res t st =
     (case res of
        Rejected m \<Rightarrow> Inl m
      | Resolved r \<Rightarrow>
          if \<not> response_ok r then Inl (''Chat request failed: '' @ showNat (status r))
          else
            (case json r of
               Inl m \<Rightarrow> Inl m
             | Inr data \<Rightarrow>
                 if nullish data then Inl (cannotRead ''ok'')
                 else if \<not> truthy (get data ''ok'')
                 then throwError (or_js (get data ''error'') (Str ''Chat failed''))
                 else
                   let assistantText = replyText data;
                       results = or_js (get data ''results'') Null;
                       hasForecastTables =
                         (truthy results \<and>
                          (isArray (get results ''forecast_head'') \<or>
                           isArray (get results ''forecast_tail'')))
                   in
                     if hasForecastTables
                     then Inr (addBotForecastMessage t assistantText results
                                 (Bool (truthy (get data ''error''))) st)
                     else
                       (case plainText stringify assistantText results (get data ''error'') of
                          Inl e \<Rightarrow> Inl e
                        | Inr (Str s) \<Rightarrow>
                            Inr (addBotMessage t (if trim s = [] then stringify data else s)
                                   (truthy (get data ''error'')) st)
                        | Inr _ \<Rightarrow> Inl ''botMessageText.trim is not a function'')))"

text \<open>
  The handler of the form's \<^verbatim>\<open>submit\<close> event; \<open>t1\<close> is the reading of the first append (the
  user's message, or the local error), \<open>t2\<close> of the one after the response.
\<close>

definition handleSend :: "(jsval \<Rightarrow> string) \<Rightarrow> fetched \<Rightarrow> tick \<Rightarrow> tick \<Rightarrow> state \<Rightarrow> state" where
  "handleSend stringify res t1 t2 st =
     (let st = st\<lparr>chatError := []\<rparr>
      in
        if trim (input st) = [] then st
        else if \<not> truthy (datasetId st)
        then addBotMessage t1 ''Please upload a CSV file first (above).'' True st
        else
          let txt = trim (input st);
              datasetId' = datasetId st;
              st = addUserMessage t1 txt st;
              st = st\<lparr>input := []\<rparr>;
              st = st\<lparr>isLoading := True\<rparr>;
              st = st\<lparr>requests := requests st @ [ChatRequest datasetId' txt False]\<rparr>;
              st = (case chat_try stringify res t2 st of
                      Inr st' \<Rightarrow> st'
                    | Inl m \<Rightarrow>
                        let msg = (if m \<noteq> [] then m
                                   else ''Sorry, something went wrong. Please try again.'');
                            st = st\<lparr>chatError := msg\<rparr>
                        in addBotMessage t2 (''Error: '' @ msg) True st)
          in st\<lparr>isLoading := False\<rparr>)"

section \<open>Sessions\<close>

text \<open>
  The three events the page reacts to: a change of the file picker, a change of the text
  field (\<^verbatim>\<open>setInput(e.target.value)\<close>) and a submit of the form. A session is a list of
  events, each handled to its end before the next.
\<close>

datatype event =
    FileChange "fileObj option" fetched tick tick
  | InputChange string
  | Submit fetched tick tick

fun step :: "(jsval \<Rightarrow> string) \<Rightarrow> state \<Rightarrow> event \<Rightarrow> state" where
  "step stringify st (FileChange ev res t1 t2) = handleFileUpload ev res t1 t2 st"
| "step stringify st (InputChange v) = st\<lparr>input := v\<rparr>"
| "step stringify st (Submit res t1 t2) = handleSend stringify res t1 t2 st"

definition run :: "(jsval \<Rightarrow> string) \<Rightarrow> event list \<Rightarrow> state \<Rightarrow> state" where
  "run stringify evs st = foldl (step stringify) st evs"

text \<open>
  To state what a session leaves: the body of an upload response that is accepted (a 2xx
  status and a JSON body with a truthy \<^verbatim>\<open>ok\<close>), and the \<^verbatim>\<open>dataset_id\<close> of the most recent
  accepted upload of a session that starts with \<open>d\<close>.
\<close>

definition accepted :: "fetched \<Rightarrow> jsval option" where
  "accepted res =
     (case res of
        Rejected m \<Rightarrow> None
      | Resolved r \<Rightarrow>
          if response_ok r
          then (case json r of Inl m \<Rightarrow> None
                | Inr data \<Rightarrow> if truthy (get data ''ok'') then Some data else None)
          else None)"

fun latestDatasetId :: "jsval \<Rightarrow> event list \<Rightarrow> jsval" where
  "latestDatasetId d [] = d"
| "latestDatasetId d (FileChange (Some f) res t1 t2 # evs) =
     latestDatasetId (case accepted res of Some data \<Rightarrow> get data ''dataset_id'' | None \<Rightarrow> d) evs"
| "latestDatasetId d (ev # evs) = latestDatasetId d evs"

subsection \<open>A sample session\<close>

text \<open>
  Three readings of the clock and the random source, the second draw within \<open>2 ^ -20\<close> of
  the first in the same millisecond; the upload response
  \<^verbatim>\<open>{ok:true, dataset_id:"d1", filename:"x.csv", preview:{head:[{a:1}]}}\<close>; the state
  after that upload with \<^verbatim>\<open>hi\<close> typed into the text field; and a stand-in for
  \<^verbatim>\<open>JSON.stringify\<close> where its text does not matter.
\<close>

definition tickA :: tick where
  "tickA = \<lparr>now = 1700000000000, random = 1 / 4\<rparr>"

definition tickA' :: tick where
  "tickA' = \<lparr>now = 1700000000000, random = 262145 / 1048576\<rparr>"

definition tickB :: tick where
  "tickB = \<lparr>now = 1700000000900, random = 3 / 4\<rparr>"

definition uploadOk :: fetched where
  "uploadOk =
     Resolved \<lparr>status = 200,
       json = Inr (Obj [(''ok'', Bool True), (''dataset_id'', Str ''d1''),
                        (''filename'', Str ''x.csv''),
                        (''preview'', Obj [(''head'', Arr [Obj [(''a'', Num ''1'')]])])])\<rparr>"

definition loaded :: state where
  "loaded = (handleFileUpload (Some (File ''x.csv'')) uploadOk tickA tickB initial)\<lparr>input := ''hi''\<rparr>"

definition noDump :: "jsval \<Rightarrow> string" where
  "noDump v = ''{}''"

text \<open>
  Three chat responses with status 200: a forecast without any assistant text, a reply that
  carries an \<^verbatim>\<open>error\<close> beside its text, and a reply whose \<^verbatim>\<open>assistant_message\<close> is the
  number 5.
\<close>

definition ok200 :: "jsval \<Rightarrow> fetched" where
  "ok200 data = Resolved \<lparr>status = 200, json = Inr data\<rparr>"

definition forecastBody :: jsval where
  "forecastBody =
     Obj [(''ok'', Bool True),
          (''results'', Obj [(''forecast_head'', Arr [Obj [(''ds'', Str ''2024-01-01''), (''yhat'', Num ''7'')]])])]"

definition partialBody :: jsval where
  "partialBody = Obj [(''ok'', Bool True), (''message'', Str ''Done''), (''error'', Str ''partial'')]"

definition numericBody :: jsval where
  "numericBody = Obj [(''ok'', Bool True), (''assistant_message'', Num ''5'')]"

section \<open>Properties of the rendering functions\<close>

subsection \<open>indexOf and the marker loop\<close>

lemma indexOf_ge: "- 1 \<le> indexOf t m"
  by (induction t) (auto simp: Let_def)

lemma occursAt_Cons_Suc: "occursAt m (c # cs) (Suc j) = occursAt m cs j"
  by (simp add: occursAt_def)

lemma indexOf_none: "indexOf t m = - 1 \<Longrightarrow> \<not> occursAt m t i"
proof (induction t arbitrary: i)
  case Nil
  then show ?case by (auto simp: occursAt_def split: if_splits)
next
  case (Cons c cs)
  show ?case
  proof (cases i)
    case 0
    with Cons.prems show ?thesis by (auto simp: occursAt_def Let_def split: if_splits)
  next
    case (Suc j)
    from Cons.prems have "indexOf cs m = - 1"
      using indexOf_ge [of cs m] by (auto simp: Let_def split: if_splits)
    from Cons.IH [OF this, of j] Suc show ?thesis by (simp add: occursAt_Cons_Suc)
  qed
qed

lemma indexOf_found:
  "indexOf t m = int i \<Longrightarrow> occursAt m t i \<and> (\<forall>j<i. \<not> occursAt m t j)"
proof (induction t arbitrary: i)
  case Nil
  then show ?case by (auto simp: occursAt_def split: if_splits)
next
  case (Cons c cs)
  show ?case
  proof (cases "take (length m) (c # cs) = m")
    case True
    with Cons.prems have "i = 0" by simp
    with True show ?thesis by (simp add: occursAt_def)
  next
    case False
    with Cons.prems have ne: "indexOf cs m \<noteq> - 1" and eq: "indexOf cs m + 1 = int i"
      by (auto simp: Let_def split: if_splits)
    from eq indexOf_ge [of cs m] ne have "0 < i" by linarith
    then obtain k where k: "i = Suc k" by (cases i) auto
    with eq have "indexOf cs m = int k" by simp
    from Cons.IH [OF this] have ih: "occursAt m cs k" "\<forall>j<k. \<not> occursAt m cs j" by auto
    have z: "\<not> occursAt m (c # cs) 0" using False by (simp add: occursAt_def)
    show ?thesis
    proof (intro conjI allI impI)
      show "occursAt m (c # cs) i" using ih(1) k by (simp add: occursAt_Cons_Suc)
    next
      fix j assume ji: "j < i"
      show "\<not> occursAt m (c # cs) j"
      proof (cases j)
        case 0
        with z show ?thesis by simp
      next
        case (Suc j')
        with ji k have "j' < k" by simp
        with ih(2) Suc show ?thesis by (simp add: occursAt_Cons_Suc)
      qed
    qed
  qed
qed

lemma indexOf_some: "indexOf t m \<noteq> - 1 \<Longrightarrow> \<exists>i. indexOf t m = int i"
  using indexOf_ge [of t m] by (intro exI [of _ "nat (indexOf t m)"]) simp

text \<open>
  The loop from any start \<open>a\<close>: it ends at \<open>-1\<close> only if it starts there and no marker is
  found; otherwise it ends at the start or at a marker's position, below the start and
  below every marker's position.
\<close>

lemma cutLoop:
  "- 1 \<le> a \<Longrightarrow>
   (foldl (cutStep t) a ms = - 1 \<longleftrightarrow> a = - 1 \<and> (\<forall>m \<in> set ms. indexOf t m = - 1)) \<and>
   (foldl (cutStep t) a ms = a \<or> (\<exists>m \<in> set ms. foldl (cutStep t) a ms = indexOf t m)) \<and>
   (a \<noteq> - 1 \<longrightarrow> foldl (cutStep t) a ms \<le> a) \<and>
   (\<forall>m \<in> set ms. indexOf t m \<noteq> - 1 \<longrightarrow> foldl (cutStep t) a ms \<le> indexOf t m)"
proof (induction ms arbitrary: a)
  case Nil
  then show ?case by simp
next
  case (Cons m ms)
  let ?b = "cutStep t a m"
  have b: "- 1 \<le> ?b" using Cons.prems indexOf_ge [of t m] by (simp add: cutStep_def Let_def)
  let ?F = "foldl (cutStep t) ?b ms"
  from Cons.IH [OF b] have
    i1: "?F = - 1 \<longleftrightarrow> ?b = - 1 \<and> (\<forall>m \<in> set ms. indexOf t m = - 1)" and
    i2: "?F = ?b \<or> (\<exists>m \<in> set ms. ?F = indexOf t m)" and
    i3: "?b \<noteq> - 1 \<longrightarrow> ?F \<le> ?b" and
    i4: "\<forall>m \<in> set ms. indexOf t m \<noteq> - 1 \<longrightarrow> ?F \<le> indexOf t m"
    by blast+
  have b1: "?b = - 1 \<longleftrightarrow> a = - 1 \<and> indexOf t m = - 1"
    using Cons.prems indexOf_ge [of t m] by (auto simp: cutStep_def Let_def)
  have b2: "?b = a \<or> ?b = indexOf t m" by (auto simp: cutStep_def Let_def)
  have b3: "a \<noteq> - 1 \<Longrightarrow> ?b \<le> a" by (auto simp: cutStep_def Let_def)
  have b4: "indexOf t m \<noteq> - 1 \<Longrightarrow> ?b \<le> indexOf t m" by (auto simp: cutStep_def Let_def)
  have c1: "?F = - 1 \<longleftrightarrow> a = - 1 \<and> (\<forall>m \<in> set (m # ms). indexOf t m = - 1)"
    using i1 b1 by auto
  have c2: "?F = a \<or> (\<exists>m \<in> set (m # ms). ?F = indexOf t m)"
    using i2 b2 by auto
  have c3: "a \<noteq> - 1 \<longrightarrow> ?F \<le> a"
    using b1 b3 i3 by fastforce
  have c4: "\<forall>m \<in> set (m # ms). indexOf t m \<noteq> - 1 \<longrightarrow> ?F \<le> indexOf t m"
    using i4 b1 b4 i3 by fastforce
  from c1 c2 c3 c4 show ?case by simp
qed

lemma cutIndex_none:
  assumes no: "\<And>i. \<not> markerAt t i"
  shows "cutIndex t = - 1"
proof -
  have "\<forall>m \<in> set cutMarkers. indexOf t m = - 1"
  proof
    fix m assume m: "m \<in> set cutMarkers"
    show "indexOf t m = - 1"
    proof (rule ccontr)
      assume "indexOf t m \<noteq> - 1"
      then obtain i where "indexOf t m = int i" using indexOf_some by blast
      then have "occursAt m t i" using indexOf_found by blast
      with m no [of i] show False by (auto simp: markerAt_def)
    qed
  qed
  then show ?thesis using cutLoop [of "- 1" t cutMarkers] by (simp add: cutIndex_def)
qed

lemma cutIndex_least:
  assumes at: "markerAt t i" and least: "\<And>j. j < i \<Longrightarrow> \<not> markerAt t j"
  shows "cutIndex t = int i"
proof -
  from at obtain m where m: "m \<in> set cutMarkers" "occursAt m t i" by (auto simp: markerAt_def)
  then have ne: "indexOf t m \<noteq> - 1" using indexOf_none by blast
  then obtain k where k: "indexOf t m = int k" using indexOf_some by blast
  then have "\<forall>j<k. \<not> occursAt m t j" using indexOf_found by blast
  with m(2) have ki: "k \<le> i" by (meson not_le)
  note L = cutLoop [of "- 1" t cutMarkers, folded cutIndex_def]
  from L m(1) ne have r1: "cutIndex t \<noteq> - 1" by auto
  from L m(1) ne k have r2: "cutIndex t \<le> int k" by auto
  from L r1 obtain m' where m': "m' \<in> set cutMarkers" "cutIndex t = indexOf t m'" by auto
  with r1 obtain k' where k': "indexOf t m' = int k'" using indexOf_some by metis
  then have "occursAt m' t k'" using indexOf_found by blast
  with m'(1) have "markerAt t k'" by (auto simp: markerAt_def)
  with least have "i \<le> k'" by (meson not_le)
  with r2 ki m'(2) k' show ?thesis by simp
qed

lemma toText_Str [simp]: "toText (Str s) = Inr s"
  by (simp add: toText_def)

lemma clean_no_marker:
  "s \<noteq> [] \<Longrightarrow> (\<And>i. \<not> markerAt s i) \<Longrightarrow>
   cleanAssistantText (Str s) = Inr (if trim s = [] then ''Forecast completed.'' else trim s)"
  by (simp add: cleanAssistantText_def Let_def cutIndex_none)

lemma clean_first_marker:
  "s \<noteq> [] \<Longrightarrow> markerAt s i \<Longrightarrow> (\<And>j. j < i \<Longrightarrow> \<not> markerAt s j) \<Longrightarrow>
   cleanAssistantText (Str s) =
     Inr (if trim (take i s) = [] then ''Forecast completed.'' else trim (take i s))"
  by (simp add: cleanAssistantText_def Let_def cutIndex_least)

lemma clean_plan_ready:
  "cleanAssistantText (Str ''Plan ready.\<newline>Forecast (head): ...'') = Inr ''Plan ready.''"
  by code_simp

lemma clean_marker_only:
  "\<forall>m \<in> set cutMarkers. cleanAssistantText (Str m) = Inr ''Forecast completed.''"
  by code_simp

text \<open>
  C2 (as amended). The empty string is returned as it is. For every other input string,
  \<open>cleanAssistantText\<close> cuts the string at the least position at which one of the eight
  markers starts (nowhere if none occurs), trims the rest and returns
  \<^verbatim>\<open>Forecast completed.\<close> if nothing is left. \<^verbatim>\<open>Plan ready.\nForecast (head): ...\<close> gives
  \<^verbatim>\<open>Plan ready.\<close>, and each marker alone gives \<^verbatim>\<open>Forecast completed.\<close>.
\<close>

theorem cleanAssistantText_cut:
  "cleanAssistantText (Str []) = Inr [] \<and>
   (s \<noteq> [] \<longrightarrow>
      ((\<forall>i. \<not> markerAt s i) \<longrightarrow>
         cleanAssistantText (Str s) =
           Inr (if trim s = [] then ''Forecast completed.'' else trim s)) \<and>
      (\<forall>i. markerAt s i \<and> (\<forall>j<i. \<not> markerAt s j) \<longrightarrow>
         cleanAssistantText (Str s) =
           Inr (if trim (take i s) = [] then ''Forecast completed.'' else trim (take i s)))) \<and>
   cleanAssistantText (Str ''Plan ready.\<newline>Forecast (head): ...'') = Inr ''Plan ready.'' \<and>
   (\<forall>m \<in> set cutMarkers. cleanAssistantText (Str m) = Inr ''Forecast completed.'')"
proof (intro conjI impI allI)
  show "cleanAssistantText (Str []) = Inr []" by (simp add: cleanAssistantText_def)
next
  assume "s \<noteq> []" "\<forall>i. \<not> markerAt s i"
  then show "cleanAssistantText (Str s) =
      Inr (if trim s = [] then ''Forecast completed.'' else trim s)"
    using clean_no_marker by blast
next
  fix i assume "s \<noteq> []" "markerAt s i \<and> (\<forall>j<i. \<not> markerAt s j)"
  then show "cleanAssistantText (Str s) =
      Inr (if trim (take i s) = [] then ''Forecast completed.'' else trim (take i s))"
    using clean_first_marker by blast
next
  show "cleanAssistantText (Str ''Plan ready.\<newline>Forecast (head): ...'') = Inr ''Plan ready.''"
    by (rule clean_plan_ready)
next
  show "\<forall>m \<in> set cutMarkers. cleanAssistantText (Str m) = Inr ''Forecast completed.''"
    by (rule clean_marker_only)
qed

text \<open>
  At \<^verbatim>\<open>Done.  Results: 42\<close> the first marker starts at position 7, and the text
  before it is kept without its trailing blanks.
\<close>

theorem cleanAssistantText_cut_witness:
  "''Done.  Results: 42'' \<noteq> [] \<and>
   markerAt ''Done.  Results: 42'' 7 \<and>
   \<not> (\<exists>j<7. markerAt ''Done.  Results: 42'' j) \<and>
   cleanAssistantText (Str ''Done.  Results: 42'') = Inr ''Done.''"
proof -
  have w: "markerAt ''Done.  Results: 42'' 7 \<and> (\<forall>j<7. \<not> markerAt ''Done.  Results: 42'' j)"
    by code_simp
  have t: "trim (take 7 ''Done.  Results: 42'') = ''Done.''"
    by code_simp
  from cleanAssistantText_cut [of "''Done.  Results: 42''"] w
  have "cleanAssistantText (Str ''Done.  Results: 42'') =
      Inr (if trim (take 7 ''Done.  Results: 42'') = [] then ''Forecast completed.''
           else trim (take 7 ''Done.  Results: 42''))"
    by blast
  with w t show ?thesis by simp
qed

text \<open>
  The claim as it was stated fails at the empty string: nothing is left of it after the
  trim, yet the guard \<^verbatim>\<open>if (!text) return ''\<close> returns it before the fallback is reached.
\<close>

theorem cleanAssistantText_empty:
  "String_js (Str []) = Some [] \<and> trim [] = [] \<and>
   cleanAssistantText (Str []) = Inr [] \<and>
   cleanAssistantText (Str []) \<noteq> Inr ''Forecast completed.''"
  by (simp add: cleanAssistantText_def trim_def)

subsection \<open>The columns of a table\<close>

lemma set_firstSeen [simp]: "set (firstSeen xs) = set xs"
  by (induction xs) auto

lemma distinct_firstSeen [simp]: "distinct (firstSeen xs)"
  by (induction xs) auto

text \<open>Adding keys to a set that holds \<open>s\<close> appends the new ones, each where it is first met.\<close>

lemma colSet_fold:
  "foldl (\<lambda>colSet k. colSet_add k colSet) s ks = s @ filter (\<lambda>k. k \<notin> set s) (firstSeen ks)"
proof (induction ks arbitrary: s)
  case Nil
  show ?case by simp
next
  case (Cons k ks)
  show ?case
  proof (cases "k \<in> set s")
    case True
    have a: "colSet_add k s = s" using True by (simp add: colSet_add_def)
    have "filter (\<lambda>x. x \<notin> set s) (filter (\<lambda>y. y \<noteq> k) (firstSeen ks)) =
          filter (\<lambda>x. x \<notin> set s) (firstSeen ks)"
      unfolding filter_filter using True by (intro filter_cong) auto
    with True show ?thesis by (simp add: a Cons.IH)
  next
    case False
    have a: "colSet_add k s = s @ [k]" using False by (simp add: colSet_add_def)
    have "filter (\<lambda>x. x \<notin> set (s @ [k])) (firstSeen ks) =
          filter (\<lambda>x. x \<notin> set s) (filter (\<lambda>y. y \<noteq> k) (firstSeen ks))"
      unfolding filter_filter by (intro filter_cong) auto
    with False show ?thesis by (simp add: a Cons.IH)
  qed
qed

lemma collect_fold:
  "foldl (\<lambda>colSet r. foldl (\<lambda>colSet k. colSet_add k colSet) colSet (rowKeys r)) s rows =
     foldl (\<lambda>colSet k. colSet_add k colSet) s (concat (map rowKeys rows))"
  by (induction rows arbitrary: s) simp_all

lemma collectColumns_firstSeen:
  "collectColumns rows = firstSeen (concat (map rowKeys rows))"
  unfolding collectColumns_def collect_fold by (simp add: colSet_fold)

lemma rowKeys_Obj [simp]: "rowKeys (Obj kvs) = map fst kvs"
  by (simp add: rowKeys_def or_js_def)

text \<open>
  When the text of every cell can be taken, the table drawn for rows that are not empty
  has the keys of all rows as columns, each once, in first-seen order, and one row of
  cells per element.
\<close>

lemma DataTable_drawn:
  assumes "rows \<noteq> []"
    and "those (map (\<lambda>r. those (map (\<lambda>c. cell proto r c) (firstSeen (concat (map rowKeys rows))))) rows) =
           Some cells"
  shows "DataTable proto (Arr rows) title =
     Inr (Some \<lparr>heading = (case title of Some s \<Rightarrow> if s \<noteq> [] then Some s else None
                            | None \<Rightarrow> None),
                 columns = firstSeen (concat (map rowKeys rows)),
                 body = cells\<rparr>)"
  using assms by (simp add: DataTable_def Let_def collectColumns_firstSeen)

text \<open>
  The rows \<^verbatim>\<open>[{a:1,b:2},{b:3,c:4}]\<close>, in a host whose objects inherit no member named
  \<^verbatim>\<open>a\<close> or \<^verbatim>\<open>c\<close>.
\<close>

lemma DataTable_sample:
  assumes "\<And>r. proto r ''a'' = None" and "\<And>r. proto r ''c'' = None"
  shows "DataTable proto
      (Arr [Obj [(''a'', Num ''1''), (''b'', Num ''2'')], Obj [(''b'', Num ''3''), (''c'', Num ''4'')]])
      None =
     Inr (Some \<lparr>heading = None, columns = [''a'', ''b'', ''c''],
                 body = [[''1'', ''2'', ''''], ['''', ''3'', ''4'']]\<rparr>)"
  by (simp add: DataTable_def Let_def collectColumns_firstSeen cell_def lookup_def assms)

text \<open>
  C3 fails on the code. The claim has the cell of a row that lacks the column's key drawn
  as the empty string. For the rows \<^verbatim>\<open>[{a:1},{constructor:'x'}]\<close> the columns are \<^verbatim>\<open>a\<close>
  and \<^verbatim>\<open>constructor\<close>; the first row has no key \<^verbatim>\<open>constructor\<close>, but \<^verbatim>\<open>r[c]\<close> finds the
  member of that name that every object inherits, which is neither \<^verbatim>\<open>null\<close> nor
  \<^verbatim>\<open>undefined\<close>, and the cell shows the text of that function. (The second row's missing
  \<^verbatim>\<open>a\<close> is drawn empty, as the claim says.)
\<close>

theorem DataTable_inherited:
  assumes "proto (Obj [(''a'', Num ''1'')]) ''constructor'' = Some txt"
    and "proto (Obj [(''constructor'', Str ''x'')]) ''a'' = None"
  shows "own (Obj [(''a'', Num ''1'')]) ''constructor'' = None \<and>
         DataTable proto (Arr [Obj [(''a'', Num ''1'')], Obj [(''constructor'', Str ''x'')]]) None =
           Inr (Some \<lparr>heading = None, columns = [''a'', ''constructor''],
                       body = [[''1'', txt], ['''', ''x'']]\<rparr>)"
  by (simp add: DataTable_def Let_def collectColumns_firstSeen cell_def lookup_def assms)

text \<open>
  A host that knows of \<^verbatim>\<open>Object.prototype.constructor\<close> alone, with the text V8 gives for
  it.
\<close>

theorem DataTable_inherited_witness:
  "DataTable (\<lambda>r c. if c = ''constructor'' then Some ''function Object() { [native code] }'' else None)
     (Arr [Obj [(''a'', Num ''1'')], Obj [(''constructor'', Str ''x'')]]) None =
     Inr (Some \<lparr>heading = None, columns = [''a'', ''constructor''],
                 body = [[''1'', ''function Object() { [native code] }''], ['''', ''x'']]\<rparr>)"
  using DataTable_inherited
    [of "\<lambda>r c. if c = ''constructor'' then Some ''function Object() { [native code] }'' else None"
        "''function Object() { [native code] }''"]
  by simp

section \<open>Properties of the handlers\<close>

subsection \<open>Appending to the log\<close>

lemma append_message_fields [simp]:
  "messages (append_message m st) = messages st @ [m]"
  "input (append_message m st) = input st"
  "isLoading (append_message m st) = isLoading st"
  "datasetId (append_message m st) = datasetId st"
  "fileName (append_message m st) = fileName st"
  "uploadError (append_message m st) = uploadError st"
  "chatError (append_message m st) = chatError st"
  "requests (append_message m st) = requests st"
  "pickerValue (append_message m st) = pickerValue st"
  by (simp_all add: append_message_def)

lemmas add_defs =
  addBotMessage_def addBotPreviewMessage_def addBotForecastMessage_def addUserMessage_def

lemma distinct_append_message:
  "distinct (map msg_id (messages (append_message m st))) \<longleftrightarrow>
     distinct (map msg_id (messages st)) \<and> msg_id m \<notin> msg_id ` set (messages st)"
  by auto

subsection \<open>Values and responses\<close>

lemma isArray_get_truthy: "isArray (get v k) \<Longrightarrow> truthy v"
  by (cases v) (auto simp: get_def split: option.splits if_splits)

lemma get_nullish [simp]: "nullish v \<Longrightarrow> get v k = Undefined"
  by (cases v) (auto simp: get_def)

lemma get_Obj [simp]:
  "get (Obj kvs) k = (case map_of kvs k of Some x \<Rightarrow> x | None \<Rightarrow> Undefined)"
  by (simp add: get_def)

lemma throwError_Str [simp]: "throwError (Str s) = Inl s"
  by (simp add: throwError_def toText_def)

lemma throwError_Inl: "\<exists>m. throwError v = Inl m"
  by (simp add: throwError_def split: sum.splits)

lemma throwError_not_Inr [simp]: "throwError v \<noteq> Inr s"
  by (simp add: throwError_def split: sum.splits)

lemma truthy_not_nullish: "truthy v \<Longrightarrow> \<not> nullish v"
  by (cases v) auto

lemma accepted_Some:
  "accepted res = Some data \<longleftrightarrow>
     (\<exists>r. res = Resolved r \<and> response_ok r \<and> json r = Inr data \<and> truthy (get data ''ok''))"
  by (auto simp: accepted_def split: fetched.splits sum.splits if_splits)

text \<open>
  An upload or a chat is not accepted exactly in these cases: the request is rejected (a
  network error), the status is not 2xx, the body is not JSON, or its \<^verbatim>\<open>ok\<close> is falsy.
\<close>

lemma accepted_None:
  "accepted res = None \<longleftrightarrow>
     (\<exists>m. res = Rejected m) \<or>
     (\<exists>r. res = Resolved r \<and>
        (\<not> response_ok r \<or> (\<exists>m. json r = Inl m) \<or>
         (\<exists>data. json r = Inr data \<and> \<not> truthy (get data ''ok''))))"
  by (auto simp: accepted_def split: fetched.splits sum.splits if_splits)

lemma accepted_None_not_ok:
  "accepted (Resolved r) = None \<Longrightarrow> response_ok r \<Longrightarrow> json r = Inr data \<Longrightarrow>
   \<not> truthy (get data ''ok'')"
  by (auto simp: accepted_def split: if_splits)

lemma accepted_ok200: "accepted (ok200 data) = (if truthy (get data ''ok'') then Some data else None)"
  by (simp add: accepted_def ok200_def response_ok_def)

subsection \<open>The try block of an upload\<close>

lemma upload_try_Inr:
  "upload_try f res t1 t2 st = Inr st' \<Longrightarrow> \<exists>data. accepted res = Some data"
  by (auto simp: upload_try_def accepted_def Let_def split: fetched.splits sum.splits if_splits)

lemma upload_try_None:
  "accepted res = None \<Longrightarrow> \<exists>m. upload_try f res t1 t2 st = Inl m"
  using upload_try_Inr [of f res t1 t2 st] by (cases "upload_try f res t1 t2 st") auto

lemma upload_try_accepted:
  \<open>accepted res = Some data \<Longrightarrow>
   upload_try f res t1 t2 st =
     Inr (addBotMessage t2
        ''Now type a message like "hi" to get the plan and proposed ds/y, then reply "confirm".''
        False
        (addBotPreviewMessage t1 (or_js (get data ''filename'') (Str (name f)))
           (get data ''dataset_id'') (or_js (get (get data ''preview'') ''head'') (Arr []))
           (st\<lparr>datasetId := get data ''dataset_id'',
               fileName := or_js (get data ''filename'') (Str (name f))\<rparr>)))\<close>
  by (auto simp: upload_try_def accepted_Some Let_def dest: truthy_not_nullish)

lemma upload_try_Rejected: "upload_try f (Rejected m) t1 t2 st = Inl m"
  by (simp add: upload_try_def)

lemma upload_try_status:
  "\<not> response_ok r \<Longrightarrow>
   upload_try f (Resolved r) t1 t2 st = Inl (''Upload failed: '' @ showNat (status r))"
  by (simp add: upload_try_def)

lemma upload_try_not_ok:
  "response_ok r \<Longrightarrow> json r = Inr data \<Longrightarrow> \<not> nullish data \<Longrightarrow> \<not> truthy (get data ''ok'') \<Longrightarrow>
   upload_try f (Resolved r) t1 t2 st =
     throwError (or_js (get data ''error'') (Str ''Upload failed''))"
  by (simp add: upload_try_def)

lemma handleFileUpload_datasetId:
  "datasetId (handleFileUpload ev res t1 t2 st) =
     (case ev of None \<Rightarrow> datasetId st
      | Some f \<Rightarrow> (case accepted res of Some data \<Rightarrow> get data ''dataset_id''
                   | None \<Rightarrow> datasetId st))"
proof (cases ev)
  case None
  then show ?thesis by (simp add: handleFileUpload_def)
next
  case (Some f)
  show ?thesis
  proof (cases "accepted res")
    case None
    from upload_try_None [OF None] obtain m where
      "upload_try f res t1 t2
          (st\<lparr>uploadError := [], chatError := [], isLoading := True,
               requests := requests st @ [UploadRequest f]\<rparr>) = Inl m"
      by blast
    with Some None show ?thesis by (simp add: handleFileUpload_def Let_def addBotMessage_def)
  next
    case (Some data)
    with \<open>ev = Some f\<close> show ?thesis
      by (simp add: handleFileUpload_def Let_def upload_try_accepted add_defs)
  qed
qed

text \<open>
  The sample upload, end to end: the log gains the preview message with its one row and
  the instruction message, and \<open>datasetId\<close> becomes \<^verbatim>\<open>d1\<close>.
\<close>

lemma accepted_uploadOk:
  "accepted uploadOk =
     Some (Obj [(''ok'', Bool True), (''dataset_id'', Str ''d1''), (''filename'', Str ''x.csv''),
                (''preview'', Obj [(''head'', Arr [Obj [(''a'', Num ''1'')]])])])"
  by (simp add: accepted_def uploadOk_def response_ok_def)

lemma loaded_fields:
  \<open>input loaded = ''hi'' \<and> datasetId loaded = Str ''d1'' \<and>
   requests loaded = [UploadRequest (File ''x.csv'')] \<and>
   messages loaded =
     [\<lparr>msg_id = 1, sender = bot, isError = False,
       payload = PlainText ''Hello! Upload a CSV file to begin.''\<rparr>,
      \<lparr>msg_id = freshId tickA, sender = bot, isError = False,
       payload = UploadPreview (Str ''x.csv'') (Str ''d1'') [Obj [(''a'', Num ''1'')]]\<rparr>,
      \<lparr>msg_id = freshId tickB, sender = bot, isError = False,
       payload = PlainText
         ''Now type a message like "hi" to get the plan and proposed ds/y, then reply "confirm".''\<rparr>]\<close>
  by (simp add: loaded_def handleFileUpload_def Let_def upload_try_accepted [OF accepted_uploadOk]
        add_defs or_js_def initial_def)

lemma trim_hi: "trim ''hi'' = ''hi''"
  by (simp add: trim_def isWhiteSpace_def)

subsection \<open>The try block of a chat\<close>

lemma chat_try_Inr:
  "chat_try stringify res t st = Inr st' \<Longrightarrow>
   \<exists>m. st' = append_message m st \<and> sender m = bot \<and> msg_id m = freshId t"
  by (auto simp: chat_try_def Let_def add_defs
        split: fetched.splits sum.splits if_splits jsval.splits)

lemma chat_try_forecast:
  assumes "accepted res = Some data"
    and "isArray (get (get data ''results'') ''forecast_head'') \<or>
         isArray (get (get data ''results'') ''forecast_tail'')"
  shows "chat_try stringify res t st =
     Inr (append_message
       \<lparr>msg_id = freshId t, sender = bot, isError = truthy (get data ''error''),
        payload = Forecast (replyText data) (get data ''results'')\<rparr> st)"
proof -
  from assms(1) obtain r where r: "res = Resolved r" "response_ok r" "json r = Inr data"
    "truthy (get data ''ok'')" by (auto simp: accepted_Some)
  from assms(2) have tr: "truthy (get data ''results'')" using isArray_get_truthy by blast
  have nn: "\<not> nullish data" using r(4) truthy_not_nullish by fastforce
  have rt: "or_js (replyText data) (Str []) = replyText data"
    by (simp add: replyText_def or_js_def)
  show ?thesis
    using r nn tr assms(2) rt
    by (simp add: chat_try_def Let_def addBotForecastMessage_def or_js_def [of "get data ''results''"])
qed

lemma chat_try_Inr_flag:
  assumes "accepted res = Some data" and "chat_try stringify res t st = Inr st'"
  shows "isError (last (messages st')) = truthy (get data ''error'')"
proof -
  from assms(1) obtain r where r: "res = Resolved r" "response_ok r" "json r = Inr data"
    "truthy (get data ''ok'')" by (auto simp: accepted_Some)
  have nn: "\<not> nullish data" using r(4) truthy_not_nullish by fastforce
  from assms(2) r nn show ?thesis
    by (auto simp: chat_try_def Let_def add_defs split: if_splits jsval.splits sum.splits)
qed

lemma handleSend_datasetId: "datasetId (handleSend stringify res t1 t2 st) = datasetId st"
proof (cases "chat_try stringify res t2
    ((addUserMessage t1 (trim (input st)) (st\<lparr>chatError := []\<rparr>))
      \<lparr>input := [], isLoading := True,
        requests := requests st @ [ChatRequest (datasetId st) (trim (input st)) False]\<rparr>)")
  case (Inl m)
  then show ?thesis by (simp add: handleSend_def Let_def add_defs)
next
  case (Inr st')
  from chat_try_Inr [OF Inr] obtain m where "st' = append_message m
      ((addUserMessage t1 (trim (input st)) (st\<lparr>chatError := []\<rparr>))
      \<lparr>input := [], isLoading := True,
        requests := requests st @ [ChatRequest (datasetId st) (trim (input st)) False]\<rparr>)" by blast
  with Inr show ?thesis by (simp add: handleSend_def Let_def add_defs)
qed

lemma handleSend_requests:
  "requests (handleSend stringify res t1 t2 st) =
     (if trim (input st) = [] \<or> \<not> truthy (datasetId st) then requests st
      else requests st @ [ChatRequest (datasetId st) (trim (input st)) False])"
proof (cases "chat_try stringify res t2
    ((addUserMessage t1 (trim (input st)) (st\<lparr>chatError := []\<rparr>))
      \<lparr>input := [], isLoading := True,
        requests := requests st @ [ChatRequest (datasetId st) (trim (input st)) False]\<rparr>)")
  case (Inl m)
  then show ?thesis by (simp add: handleSend_def Let_def add_defs)
next
  case (Inr st')
  from chat_try_Inr [OF Inr] obtain m where "st' = append_message m
      ((addUserMessage t1 (trim (input st)) (st\<lparr>chatError := []\<rparr>))
      \<lparr>input := [], isLoading := True,
        requests := requests st @ [ChatRequest (datasetId st) (trim (input st)) False]\<rparr>)" by blast
  with Inr show ?thesis by (simp add: handleSend_def Let_def add_defs)
qed

subsection \<open>handleSend\<close>

text \<open>
  C1. When the chat request is sent (the input is not blank and \<open>datasetId\<close> is set) and
  its response is accepted (2xx, \<^verbatim>\<open>ok\<close> truthy) with a \<^verbatim>\<open>results\<close> that holds an array
  \<^verbatim>\<open>forecast_head\<close> or an array \<^verbatim>\<open>forecast_tail\<close>, \<open>handleSend\<close> appends the user's
  message and then exactly one more message, of kind \<^verbatim>\<open>forecast\<close>: no plain-text bot
  message and no JSON dump, whatever \<^verbatim>\<open>assistant_message\<close> is.
\<close>

theorem handleSend_forecast:
  assumes "trim (input st) \<noteq> []" and "truthy (datasetId st)"
    and "accepted res = Some data"
    and "isArray (get (get data ''results'') ''forecast_head'') \<or>
         isArray (get (get data ''results'') ''forecast_tail'')"
  shows "\<exists>f. messages (handleSend stringify res t1 t2 st) =
       messages st @
         [\<lparr>msg_id = freshId t1, sender = user, isError = False,
           payload = PlainText (trim (input st))\<rparr>, f] \<and>
       kind f = Some forecast \<and> sender f = bot \<and>
       payload f = Forecast (replyText data) (get data ''results'')"
  using assms(1,2) chat_try_forecast [OF assms(3,4)]
  by (simp add: handleSend_def Let_def addUserMessage_def kind_def)

text \<open>The sample forecast response, which has no assistant text at all.\<close>

theorem handleSend_forecast_witness:
  "trim (input loaded) \<noteq> [] \<and> truthy (datasetId loaded) \<and>
   accepted (ok200 forecastBody) = Some forecastBody \<and>
   isArray (get (get forecastBody ''results'') ''forecast_head'') \<and>
   get forecastBody ''assistant_message'' = Undefined \<and>
   (\<exists>f. messages (handleSend noDump (ok200 forecastBody) tickA tickB loaded) =
       messages loaded @
         [\<lparr>msg_id = freshId tickA, sender = user, isError = False, payload = PlainText ''hi''\<rparr>, f] \<and>
       kind f = Some forecast)"
proof -
  have a: "trim (input loaded) \<noteq> []" "truthy (datasetId loaded)"
    by (simp_all add: loaded_fields trim_hi)
  have b: "accepted (ok200 forecastBody) = Some forecastBody"
    by (simp add: accepted_ok200 forecastBody_def)
  have c: "isArray (get (get forecastBody ''results'') ''forecast_head'')"
    by (simp add: forecastBody_def)
  have d: "get forecastBody ''assistant_message'' = Undefined"
    by (simp add: forecastBody_def)
  from handleSend_forecast [OF a b disjI1 [OF c], of noDump tickA tickB] a b c d
  show ?thesis by (auto simp: loaded_fields trim_hi)
qed

text \<open>
  C4. A submit whose input is empty or only white space sends no request and appends no
  message.
\<close>

theorem handleSend_blank:
  assumes "trim (input st) = []"
  shows "requests (handleSend stringify res t1 t2 st) = requests st \<and>
         messages (handleSend stringify res t1 t2 st) = messages st"
  using assms by (simp add: handleSend_def)

theorem handleSend_blank_witness:
  "trim (input (loaded\<lparr>input := ''   ''\<rparr>)) = [] \<and>
   requests (handleSend noDump (ok200 forecastBody) tickA tickB (loaded\<lparr>input := ''   ''\<rparr>)) =
     [UploadRequest (File ''x.csv'')] \<and>
   length (messages (handleSend noDump (ok200 forecastBody) tickA tickB
                       (loaded\<lparr>input := ''   ''\<rparr>))) = 3"
proof -
  have a: "trim (input (loaded\<lparr>input := ''   ''\<rparr>)) = []"
    by (simp add: trim_def isWhiteSpace_def)
  from handleSend_blank [OF a, of noDump "ok200 forecastBody" tickA tickB] a
  show ?thesis by (simp add: loaded_fields)
qed

text \<open>
  C5. A submit with input that is not blank while \<open>datasetId\<close> is unset (\<^verbatim>\<open>null\<close> before
  the first accepted upload; any falsy value is handled alike) sends no request and
  appends exactly one message, an error-flagged bot message.
\<close>

theorem handleSend_no_dataset:
  assumes "trim (input st) \<noteq> []" and "\<not> truthy (datasetId st)"
  shows "requests (handleSend stringify res t1 t2 st) = requests st \<and>
         messages (handleSend stringify res t1 t2 st) =
           messages st @ [\<lparr>msg_id = freshId t1, sender = bot, isError = True,
              payload = PlainText ''Please upload a CSV file first (above).''\<rparr>]"
  using assms by (simp add: handleSend_def addBotMessage_def)

theorem handleSend_no_dataset_witness:
  "trim (input (initial\<lparr>input := ''hi''\<rparr>)) \<noteq> [] \<and>
   datasetId (initial\<lparr>input := ''hi''\<rparr>) = Null \<and>
   requests (handleSend noDump (ok200 forecastBody) tickA tickB (initial\<lparr>input := ''hi''\<rparr>)) = [] \<and>
   messages (handleSend noDump (ok200 forecastBody) tickA tickB (initial\<lparr>input := ''hi''\<rparr>)) =
     messages initial @ [\<lparr>msg_id = freshId tickA, sender = bot, isError = True,
        payload = PlainText ''Please upload a CSV file first (above).''\<rparr>]"
proof -
  have a: "trim (input (initial\<lparr>input := ''hi''\<rparr>)) \<noteq> []" by (simp add: trim_hi)
  have b: "\<not> truthy (datasetId (initial\<lparr>input := ''hi''\<rparr>))" by (simp add: initial_def)
  from handleSend_no_dataset [OF a b, of noDump "ok200 forecastBody" tickA tickB] a
  show ?thesis by (simp add: initial_def)
qed

text \<open>
  Whenever the chat request is sent and its response is accepted with a truthy \<^verbatim>\<open>error\<close>,
  the handler appends the user's message and then one bot message that is error-flagged:
  on the forecast path and on the plain-text path the flag is \<^verbatim>\<open>Boolean(data.error)\<close>,
  and a message appended by the \<^verbatim>\<open>catch\<close> block is flagged too.
\<close>

lemma handleSend_error_flagged:
  assumes "trim (input st) \<noteq> []" and "truthy (datasetId st)" and "accepted res = Some data"
    and "truthy (get data ''error'')"
  shows "\<exists>u b. messages (handleSend stringify res t1 t2 st) = messages st @ [u, b] \<and>
           sender u = user \<and> sender b = bot \<and> isError b"
proof -
  let ?st1 = "(addUserMessage t1 (trim (input st)) (st\<lparr>chatError := []\<rparr>))
      \<lparr>input := [], isLoading := True,
        requests := requests st @ [ChatRequest (datasetId st) (trim (input st)) False]\<rparr>"
  show ?thesis
  proof (cases "chat_try stringify res t2 ?st1")
    case (Inr st')
    from chat_try_Inr [OF Inr] obtain m where
      m: "st' = append_message m ?st1" "sender m = bot" by blast
    from chat_try_Inr_flag [OF assms(3) Inr] m(1) assms(4)
    have "isError m" by simp
    with Inr m assms(1,2) show ?thesis
      by (simp add: handleSend_def Let_def addUserMessage_def)
  next
    case (Inl e)
    with assms(1,2) show ?thesis
      by (simp add: handleSend_def Let_def addUserMessage_def addBotMessage_def)
  qed
qed

text \<open>
  C10 fails on the code. The claim has the message appended for an accepted response
  without an \<^verbatim>\<open>error\<close> field not error-flagged. At the accepted response
  \<^verbatim>\<open>{ok: true, assistant_message: 5}\<close>, sent after the sample upload with \<^verbatim>\<open>hi\<close> typed, there
  is no \<^verbatim>\<open>error\<close> and no \<^verbatim>\<open>results\<close>; the reply text is the number 5, which has no
  \<^verbatim>\<open>trim\<close>; \<^verbatim>\<open>botMessageText.trim()\<close> throws a TypeError, the \<^verbatim>\<open>catch\<close> block runs, and the
  message appended is an error-flagged \<^verbatim>\<open>Error: botMessageText.trim is not a function\<close>.
\<close>

theorem handleSend_error_flag_numeric:
  "accepted (ok200 numericBody) = Some numericBody \<and>
   get numericBody ''error'' = Undefined \<and>
   messages (handleSend noDump (ok200 numericBody) tickA tickB loaded) =
     messages loaded @
       [\<lparr>msg_id = freshId tickA, sender = user, isError = False, payload = PlainText ''hi''\<rparr>,
        \<lparr>msg_id = freshId tickB, sender = bot, isError = True,
         payload = PlainText ''Error: botMessageText.trim is not a function''\<rparr>]"
proof -
  have a: "accepted (ok200 numericBody) = Some numericBody"
    by (simp add: accepted_ok200 numericBody_def)
  have b: "get numericBody ''error'' = Undefined"
    by (simp add: numericBody_def)
  have c: "chat_try noDump (ok200 numericBody) tickB s =
      Inl ''botMessageText.trim is not a function''" for s
    by (simp add: chat_try_def ok200_def response_ok_def numericBody_def replyText_def
          plainText_def Let_def or_js_def)
  have "messages (handleSend noDump (ok200 numericBody) tickA tickB loaded) =
     messages loaded @
       [\<lparr>msg_id = freshId tickA, sender = user, isError = False, payload = PlainText ''hi''\<rparr>,
        \<lparr>msg_id = freshId tickB, sender = bot, isError = True,
         payload = PlainText ''Error: botMessageText.trim is not a function''\<rparr>]"
    by (simp add: handleSend_def Let_def c loaded_fields trim_hi add_defs)
  with a b show ?thesis by simp
qed

subsection \<open>handleFileUpload\<close>

text \<open>
  C6. When an upload fails (the request is rejected, the status is not 2xx, the body is
  not JSON, or its \<^verbatim>\<open>ok\<close> is falsy), \<open>handleFileUpload\<close> records the reason in
  \<open>uploadError\<close>, appends exactly one message, an error-flagged bot message that holds the
  reason, and leaves \<open>datasetId\<close> as it was. The reason is \<^verbatim>\<open>Upload failed: \<close> and the
  status for a status that is not 2xx, the body's \<^verbatim>\<open>error\<close> string (or \<^verbatim>\<open>Upload failed\<close>
  without one) for a body that is not ok, and the message of a network error.
\<close>

theorem handleFileUpload_failure:
  assumes "accepted res = None"
  shows "\<exists>msg. msg \<noteq> [] \<and>
           uploadError (handleFileUpload (Some f) res t1 t2 st) = msg \<and>
           messages (handleFileUpload (Some f) res t1 t2 st) =
             messages st @ [\<lparr>msg_id = freshId t1, sender = bot, isError = True,
                             payload = PlainText (''Upload error: '' @ msg)\<rparr>] \<and>
           datasetId (handleFileUpload (Some f) res t1 t2 st) = datasetId st \<and>
           (\<forall>r. res = Resolved r \<and> \<not> response_ok r \<longrightarrow>
                msg = ''Upload failed: '' @ showNat (status r)) \<and>
           (\<forall>r data e. res = Resolved r \<and> response_ok r \<and> json r = Inr data \<and>
                get data ''error'' = Str e \<and> e \<noteq> [] \<longrightarrow> msg = e) \<and>
           (\<forall>r data. res = Resolved r \<and> response_ok r \<and> json r = Inr data \<and>
                \<not> nullish data \<and> \<not> truthy (get data ''error'') \<longrightarrow> msg = ''Upload failed'') \<and>
           (\<forall>m. res = Rejected m \<and> m \<noteq> [] \<longrightarrow> msg = m)"
proof -
  from upload_try_None [OF assms] obtain m where
    m: "upload_try f res t1 t2
          (st\<lparr>uploadError := [], chatError := [], isLoading := True,
               requests := requests st @ [UploadRequest f]\<rparr>) = Inl m"
    by blast
  let ?msg = "if m \<noteq> [] then m else ''Failed to upload file.''"
  have st': "handleFileUpload (Some f) res t1 t2 st =
      (addBotMessage t1 (''Upload error: '' @ ?msg) True
         (st\<lparr>uploadError := [], chatError := [], isLoading := True,
              requests := requests st @ [UploadRequest f], uploadError := ?msg\<rparr>))
        \<lparr>isLoading := False, pickerValue := []\<rparr>"
    using m by (simp add: handleFileUpload_def Let_def)
  have c1: "\<forall>r. res = Resolved r \<and> \<not> response_ok r \<longrightarrow>
                ?msg = ''Upload failed: '' @ showNat (status r)"
  proof (intro allI impI, elim conjE)
    fix r assume h: "res = Resolved r" "\<not> response_ok r"
    from upload_try_status [OF h(2), of f t1 t2] m h(1)
    have "m = ''Upload failed: '' @ showNat (status r)" by simp
    then show "?msg = ''Upload failed: '' @ showNat (status r)" by simp
  qed
  have c2: "\<forall>r data e. res = Resolved r \<and> response_ok r \<and> json r = Inr data \<and>
                get data ''error'' = Str e \<and> e \<noteq> [] \<longrightarrow> ?msg = e"
  proof (intro allI impI, elim conjE)
    fix r data e
    assume h: "res = Resolved r" "response_ok r" "json r = Inr data"
      "get data ''error'' = Str e" "e \<noteq> []"
    from h(4) have nn: "\<not> nullish data" by (cases data) auto
    from assms h have "\<not> truthy (get data ''ok'')" using accepted_None_not_ok by blast
    from upload_try_not_ok [OF h(2,3) nn this, of f t1 t2] m h have "m = e"
      by (simp add: or_js_def)
    with h(5) show "?msg = e" by simp
  qed
  have c3: "\<forall>r data. res = Resolved r \<and> response_ok r \<and> json r = Inr data \<and>
                \<not> nullish data \<and> \<not> truthy (get data ''error'') \<longrightarrow> ?msg = ''Upload failed''"
  proof (intro allI impI, elim conjE)
    fix r data
    assume h: "res = Resolved r" "response_ok r" "json r = Inr data"
      "\<not> nullish data" "\<not> truthy (get data ''error'')"
    from assms h have "\<not> truthy (get data ''ok'')" using accepted_None_not_ok by blast
    from upload_try_not_ok [OF h(2,3,4) this, of f t1 t2] m h have "m = ''Upload failed''"
      by (simp add: or_js_def)
    then show "?msg = ''Upload failed''" by simp
  qed
  have c4: "\<forall>m'. res = Rejected m' \<and> m' \<noteq> [] \<longrightarrow> ?msg = m'"
    using m by (auto simp: upload_try_Rejected)
  have c0: "?msg \<noteq> []" by simp
  show ?thesis
    apply (rule exI [of _ ?msg])
    apply (intro conjI)
           apply (rule c0)
          apply (simp add: st' addBotMessage_def)
         apply (simp add: st' addBotMessage_def)
        apply (simp add: st' addBotMessage_def)
       apply (rule c1)
      apply (rule c2)
     apply (rule c3)
    apply (rule c4)
    done
qed

text \<open>A second upload, answered with status 500, after the sample one.\<close>

theorem handleFileUpload_failure_witness:
  "accepted (Resolved \<lparr>status = 500, json = Inl ''Unexpected token''\<rparr>) = None \<and>
   uploadError (handleFileUpload (Some (File ''y.csv''))
       (Resolved \<lparr>status = 500, json = Inl ''Unexpected token''\<rparr>) tickA tickB loaded) =
     ''Upload failed: 500'' \<and>
   datasetId (handleFileUpload (Some (File ''y.csv''))
       (Resolved \<lparr>status = 500, json = Inl ''Unexpected token''\<rparr>) tickA tickB loaded) =
     Str ''d1'' \<and>
   messages (handleFileUpload (Some (File ''y.csv''))
       (Resolved \<lparr>status = 500, json = Inl ''Unexpected token''\<rparr>) tickA tickB loaded) =
     messages loaded @ [\<lparr>msg_id = freshId tickA, sender = bot, isError = True,
                         payload = PlainText ''Upload error: Upload failed: 500''\<rparr>]"
proof -
  let ?res = "Resolved \<lparr>status = 500, json = Inl ''Unexpected token''\<rparr>"
  have a: "accepted ?res = None" by (simp add: accepted_def response_ok_def)
  have n: "showNat 500 = ''500''" by code_simp
  from handleFileUpload_failure [OF a, of "File ''y.csv''" tickA tickB loaded]
  obtain msg where
    m: "uploadError (handleFileUpload (Some (File ''y.csv'')) ?res tickA tickB loaded) = msg"
       "messages (handleFileUpload (Some (File ''y.csv'')) ?res tickA tickB loaded) =
          messages loaded @ [\<lparr>msg_id = freshId tickA, sender = bot, isError = True,
                              payload = PlainText (''Upload error: '' @ msg)\<rparr>]"
       "datasetId (handleFileUpload (Some (File ''y.csv'')) ?res tickA tickB loaded) =
          datasetId loaded"
       "\<forall>r. ?res = Resolved r \<and> \<not> response_ok r \<longrightarrow>
            msg = ''Upload failed: '' @ showNat (status r)"
    by blast
  from m(4) n have "msg = ''Upload failed: 500''" by (simp add: response_ok_def)
  with m(1,2,3) a show ?thesis by (simp add: loaded_fields)
qed

text \<open>
  C9. Once a file is selected, \<open>handleFileUpload\<close> ends with \<open>isLoading\<close> cleared and the
  file picker's value reset to the empty string, whatever the request gives.
\<close>

theorem handleFileUpload_finally:
  "isLoading (handleFileUpload (Some f) res t1 t2 st) = False \<and>
   pickerValue (handleFileUpload (Some f) res t1 t2 st) = []"
  by (simp add: handleFileUpload_def Let_def)

subsection \<open>Sessions\<close>

lemma run_Nil [simp]: "run stringify [] st = st"
  by (simp add: run_def)

lemma run_Cons [simp]: "run stringify (ev # evs) st = run stringify evs (step stringify st ev)"
  by (simp add: run_def)

lemma run_snoc: "run stringify (evs @ [ev]) st = step stringify (run stringify evs st) ev"
  by (simp add: run_def)

lemma run_datasetId:
  "datasetId (run stringify evs st) = latestDatasetId (datasetId st) evs"
proof (induction evs arbitrary: st)
  case Nil
  show ?case by simp
next
  case (Cons ev evs)
  show ?case
  proof (cases ev)
    case (FileChange f res t1 t2)
    then show ?thesis
      by (cases f) (simp_all add: Cons.IH handleFileUpload_datasetId)
  next
    case (InputChange v)
    then show ?thesis by (simp add: Cons.IH)
  next
    case (Submit res t1 t2)
    then show ?thesis by (simp add: Cons.IH handleSend_datasetId)
  qed
qed

text \<open>
  C7. After any session of uploads and chats, \<open>datasetId\<close> is the \<^verbatim>\<open>dataset_id\<close> of the
  most recent accepted upload response (\<open>latestDatasetId\<close>); right after an accepted
  upload it is the \<^verbatim>\<open>dataset_id\<close> of that response; and the request of a submit, when one
  is sent, carries the \<^verbatim>\<open>dataset_id\<close> of the most recent accepted upload before it.
\<close>

theorem session_datasetId:
  "datasetId (run stringify evs st) = latestDatasetId (datasetId st) evs \<and>
   (accepted res = Some data \<longrightarrow>
      datasetId (run stringify (evs @ [FileChange (Some f) res t1 t2]) st) =
        get data ''dataset_id'') \<and>
   requests (run stringify (evs @ [Submit res' t3 t4]) st) =
     (if trim (input (run stringify evs st)) = [] \<or>
         \<not> truthy (latestDatasetId (datasetId st) evs)
      then requests (run stringify evs st)
      else requests (run stringify evs st) @
             [ChatRequest (latestDatasetId (datasetId st) evs)
                (trim (input (run stringify evs st))) False])"
  by (simp add: run_snoc run_datasetId handleFileUpload_datasetId handleSend_requests)

text \<open>
  The sample upload, a failed upload, \<^verbatim>\<open>hi\<close> typed and submitted: the chat request carries
  \<^verbatim>\<open>d1\<close>.
\<close>

theorem session_datasetId_witness:
  "accepted uploadOk \<noteq> None \<and>
   datasetId (run noDump [FileChange (Some (File ''x.csv'')) uploadOk tickA tickB] initial) =
     Str ''d1'' \<and>
   requests (run noDump
      ([FileChange (Some (File ''x.csv'')) uploadOk tickA tickB,
        FileChange (Some (File ''y.csv'')) (Rejected ''Failed to fetch'') tickA tickB,
        InputChange ''hi''] @ [Submit (ok200 forecastBody) tickA tickB]) initial) =
     [UploadRequest (File ''x.csv''), UploadRequest (File ''y.csv''),
      ChatRequest (Str ''d1'') ''hi'' False]"
proof -
  let ?up = "FileChange (Some (File ''x.csv'')) uploadOk tickA tickB"
  let ?evs = "[?up, FileChange (Some (File ''y.csv'')) (Rejected ''Failed to fetch'') tickA tickB,
        InputChange ''hi'']"
  have a: "accepted (Rejected ''Failed to fetch'') = None" by (simp add: accepted_def)
  have l: "latestDatasetId (datasetId initial) ?evs = Str ''d1''"
    by (simp add: accepted_uploadOk a)
  have i: "input (run noDump ?evs initial) = ''hi''" by simp
  have u: "upload_try (File ''y.csv'') (Rejected ''Failed to fetch'') tickA tickB s = Inl ''Failed to fetch''"
    for s by (rule upload_try_Rejected)
  have r: "requests (run noDump ?evs initial) =
      [UploadRequest (File ''x.csv''), UploadRequest (File ''y.csv'')]"
    by (simp add: handleFileUpload_def Let_def upload_try_accepted [OF accepted_uploadOk] u
          add_defs initial_def)
  from session_datasetId [of noDump "[]" initial uploadOk _ "File ''x.csv''" tickA tickB]
  have d: "datasetId (run noDump [?up] initial) = Str ''d1''"
    by (simp add: accepted_uploadOk)
  from session_datasetId [of noDump ?evs initial uploadOk _ "File ''x.csv''" tickA tickB
      "ok200 forecastBody" tickA tickB]
  have "requests (run noDump (?evs @ [Submit (ok200 forecastBody) tickA tickB]) initial) =
      [UploadRequest (File ''x.csv''), UploadRequest (File ''y.csv''),
       ChatRequest (Str ''d1'') ''hi'' False]"
    unfolding l i r by (simp add: trim_hi)
  with d show ?thesis by (simp add: accepted_uploadOk)
qed

subsection \<open>Message ids\<close>

lemma expo_bounds: "2 ^ k \<le> n \<Longrightarrow> n < 2 ^ Suc k \<Longrightarrow> expo n = k"
proof (induction k arbitrary: n)
  case 0
  then show ?case by (simp add: expo.simps [of n])
next
  case (Suc k)
  have p: "(1::int) \<le> 2 ^ k" by simp
  from Suc.prems have "2 * 2 ^ k \<le> n" by simp
  with p have n2: "\<not> n < 2" by linarith
  from Suc.prems have "2 ^ k \<le> n div 2" "n div 2 < 2 ^ Suc k" by auto
  from Suc.IH [OF this] n2 show ?case by (simp add: expo.simps [of n])
qed

lemma roundEven_add_even:
  assumes "even m"
  shows "roundEven (of_int m + q) = m + roundEven q"
proof -
  have f: "\<lfloor>of_int m + q\<rfloor> = m + \<lfloor>q\<rfloor>" by simp
  have d: "of_int m + q - of_int (m + \<lfloor>q\<rfloor>) = q - of_int \<lfloor>q\<rfloor>" by simp
  show ?thesis
    unfolding roundEven_def Let_def f d using assms by simp
qed

text \<open>
  At a clock value \<open>n\<close> with \<open>2 ^ k \<le> n < 2 ^ (k + 1)\<close>, \<open>k < 52\<close>, the id is the clock plus the
  draw rounded to a multiple of \<open>2 ^ (k - 52)\<close>.
\<close>

lemma fl_clock:
  assumes n: "2 ^ k \<le> n" "n < 2 ^ Suc k" and k: "k < 52" and r: "0 \<le> r" "r < 1"
  shows "fl (of_int n + r) = of_int n + of_int (roundEven (r * 2 ^ (52 - k))) / 2 ^ (52 - k)"
proof -
  let ?x = "of_int n + r :: rat"
  have "(1::int) \<le> 2 ^ k" by simp
  with n(1) have n1: "1 \<le> n" by linarith
  have x1: "1 \<le> ?x" using n1 r(1) by (simp add: add_increasing2)
  then have x0: "?x \<noteq> 0" "\<bar>?x\<bar> = ?x" "sgn ?x = 1" by auto
  have fx: "\<lfloor>?x\<rfloor> = n" using r by (simp add: floor_unique)
  have e: "ilog2 ?x = int k" using x1 fx expo_bounds [OF n] by (simp add: ilog2_def)
  have m: "max (int k) (- 1022) = int k" by simp
  have u: "pow2 (int k - 52) = 1 / 2 ^ (52 - k)"
    using k by (simp add: pow2_def nat_diff_distrib')
  have ev: "even (n * 2 ^ (52 - k))" using k by simp
  have q: "?x / (1 / 2 ^ (52 - k)) = of_int (n * 2 ^ (52 - k)) + r * 2 ^ (52 - k)"
    by (simp add: algebra_simps)
  have "fl ?x = 1 / 2 ^ (52 - k) * of_int (roundEven (?x / (1 / 2 ^ (52 - k))))"
    unfolding fl_def Let_def using x0 e m u by simp
  also have "\<dots> = 1 / 2 ^ (52 - k) * of_int (n * 2 ^ (52 - k) + roundEven (r * 2 ^ (52 - k)))"
    unfolding q roundEven_add_even [OF ev] ..
  also have "\<dots> = of_int n + of_int (roundEven (r * 2 ^ (52 - k))) / 2 ^ (52 - k)"
    by (simp add: field_simps)
  finally show ?thesis .
qed

lemma freshId_clock:
  assumes "2 ^ 40 \<le> now t" and "now t < 2 ^ 41" and "0 \<le> random t" and "random t < 1"
  shows "freshId t = of_int (now t) + of_int (roundEven (random t * 4096)) / 4096"
  using fl_clock [of 40 "now t" "random t"] assms by (simp add: freshId_def)

lemma roundEven_tickA: "roundEven (random tickA * 4096) = 1024"
  by code_simp

lemma roundEven_tickA': "roundEven (random tickA' * 4096) = 1024"
  by code_simp

lemma freshId_tickA: "freshId tickA = 1700000000000 + 1 / 4"
  using freshId_clock [of tickA] roundEven_tickA by (simp add: tickA_def)

lemma freshId_tickA': "freshId tickA' = 1700000000000 + 1 / 4"
  using freshId_clock [of tickA'] roundEven_tickA' by (simp add: tickA'_def)

text \<open>
  C8 (as amended). Each of the four append functions gives the new message the id
  \<^verbatim>\<open>Date.now() + Math.random()\<close> of its own readings, the double nearest to the clock plus
  the draw, and nothing checks it against the log: the ids of the log stay pairwise
  different exactly when they were so before and the new id differs from every id already
  there. The tiebreak does not make ids unique: at a clock value from \<open>2 ^ 40\<close> to
  \<open>2 ^ 41\<close> milliseconds (the years 2004 to 2039) the draw only counts rounded to a
  multiple of \<open>2 ^ -12\<close>, so two appends in the same millisecond get the same id exactly
  when their draws round alike.
\<close>

theorem message_ids:
  "msg_id (last (messages (addBotMessage t txt e st))) = fl (of_int (now t) + random t) \<and>
   msg_id (last (messages (addUserMessage t txt st))) = fl (of_int (now t) + random t) \<and>
   msg_id (last (messages (addBotPreviewMessage t fn d hr st))) = fl (of_int (now t) + random t) \<and>
   msg_id (last (messages (addBotForecastMessage t a r e' st))) = fl (of_int (now t) + random t) \<and>
   (distinct (map msg_id (messages (addBotMessage t txt e st))) \<longleftrightarrow>
      distinct (map msg_id (messages st)) \<and>
      fl (of_int (now t) + random t) \<notin> msg_id ` set (messages st)) \<and>
   (distinct (map msg_id (messages (addUserMessage t txt st))) \<longleftrightarrow>
      distinct (map msg_id (messages st)) \<and>
      fl (of_int (now t) + random t) \<notin> msg_id ` set (messages st)) \<and>
   (distinct (map msg_id (messages (addBotPreviewMessage t fn d hr st))) \<longleftrightarrow>
      distinct (map msg_id (messages st)) \<and>
      fl (of_int (now t) + random t) \<notin> msg_id ` set (messages st)) \<and>
   (distinct (map msg_id (messages (addBotForecastMessage t a r e' st))) \<longleftrightarrow>
      distinct (map msg_id (messages st)) \<and>
      fl (of_int (now t) + random t) \<notin> msg_id ` set (messages st)) \<and>
   (2 ^ 40 \<le> now t \<and> now t < 2 ^ 41 \<and> 0 \<le> random t \<and> random t < 1 \<and>
    now t' = now t \<and> 0 \<le> random t' \<and> random t' < 1 \<longrightarrow>
      (msg_id (last (messages (addBotMessage t txt e st))) =
       msg_id (last (messages (addUserMessage t' txt' st'))) \<longleftrightarrow>
         roundEven (random t * 4096) = roundEven (random t' * 4096)))"
proof -
  have ids:
    "msg_id (last (messages (addBotMessage t txt e st))) = fl (of_int (now t) + random t)"
    "msg_id (last (messages (addUserMessage t txt st))) = fl (of_int (now t) + random t)"
    "msg_id (last (messages (addBotPreviewMessage t fn d hr st))) = fl (of_int (now t) + random t)"
    "msg_id (last (messages (addBotForecastMessage t a r e' st))) = fl (of_int (now t) + random t)"
    by (simp_all add: add_defs freshId_def)
  have dis:
    "distinct (map msg_id (messages (addBotMessage t txt e st))) \<longleftrightarrow>
      distinct (map msg_id (messages st)) \<and>
      fl (of_int (now t) + random t) \<notin> msg_id ` set (messages st)"
    "distinct (map msg_id (messages (addUserMessage t txt st))) \<longleftrightarrow>
      distinct (map msg_id (messages st)) \<and>
      fl (of_int (now t) + random t) \<notin> msg_id ` set (messages st)"
    "distinct (map msg_id (messages (addBotPreviewMessage t fn d hr st))) \<longleftrightarrow>
      distinct (map msg_id (messages st)) \<and>
      fl (of_int (now t) + random t) \<notin> msg_id ` set (messages st)"
    "distinct (map msg_id (messages (addBotForecastMessage t a r e' st))) \<longleftrightarrow>
      distinct (map msg_id (messages st)) \<and>
      fl (of_int (now t) + random t) \<notin> msg_id ` set (messages st)"
    by (simp_all add: add_defs freshId_def distinct_append_message)
  have same: "2 ^ 40 \<le> now t \<and> now t < 2 ^ 41 \<and> 0 \<le> random t \<and> random t < 1 \<and>
    now t' = now t \<and> 0 \<le> random t' \<and> random t' < 1 \<longrightarrow>
      (msg_id (last (messages (addBotMessage t txt e st))) =
       msg_id (last (messages (addUserMessage t' txt' st'))) \<longleftrightarrow>
         roundEven (random t * 4096) = roundEven (random t' * 4096))"
  proof (intro impI, elim conjE)
    assume h: "2 ^ 40 \<le> now t" "now t < 2 ^ 41" "0 \<le> random t" "random t < 1"
      "now t' = now t" "0 \<le> random t'" "random t' < 1"
    from h have a: "freshId t = of_int (now t) + of_int (roundEven (random t * 4096)) / 4096"
      by (intro freshId_clock) auto
    from h have b: "freshId t' = of_int (now t) + of_int (roundEven (random t' * 4096)) / 4096"
      using freshId_clock [of t'] by simp
    show "msg_id (last (messages (addBotMessage t txt e st))) =
          msg_id (last (messages (addUserMessage t' txt' st'))) \<longleftrightarrow>
          roundEven (random t * 4096) = roundEven (random t' * 4096)"
      by (simp add: add_defs a b)
  qed
  from ids dis same show ?thesis by blast
qed

text \<open>
  Two appends in the millisecond 1700000000000, with the draws \<open>1 / 4\<close> and
  \<open>1 / 4 + 2 ^ -20\<close>.
\<close>

theorem message_ids_witness:
  "2 ^ 40 \<le> now tickA \<and> now tickA < 2 ^ 41 \<and> 0 \<le> random tickA \<and> random tickA < 1 \<and>
   now tickA' = now tickA \<and> 0 \<le> random tickA' \<and> random tickA' < 1 \<and>
   roundEven (random tickA * 4096) = roundEven (random tickA' * 4096) \<and>
   msg_id (last (messages (addBotMessage tickA ''a'' False initial))) =
   msg_id (last (messages (addUserMessage tickA' ''b'' initial)))"
proof -
  have h: "2 ^ 40 \<le> now tickA \<and> now tickA < 2 ^ 41 \<and> 0 \<le> random tickA \<and> random tickA < 1 \<and>
      now tickA' = now tickA \<and> 0 \<le> random tickA' \<and> random tickA' < 1"
    by (simp add: tickA_def tickA'_def)
  have r: "roundEven (random tickA * 4096) = roundEven (random tickA' * 4096)"
    by (simp only: roundEven_tickA roundEven_tickA')
  from message_ids [of tickA "''a''" False initial _ _ _ _ _ _ tickA' "''b''" initial] h r
  have "msg_id (last (messages (addBotMessage tickA ''a'' False initial))) =
        msg_id (last (messages (addUserMessage tickA' ''b'' initial)))"
    by blast
  with h r show ?thesis by blast
qed

text \<open>
  The claim as it was stated fails when the two appends of an accepted upload, which
  follow each other at once, fall into the same millisecond and their draws differ by
  \<open>2 ^ -20\<close>: the preview message and the instruction message get the same id.
\<close>

theorem message_ids_collide:
  "now tickA' = now tickA \<and> random tickA' \<noteq> random tickA \<and>
   map msg_id (messages (handleFileUpload (Some (File ''x.csv'')) uploadOk tickA tickA' initial)) =
     [1, 1700000000000 + 1 / 4, 1700000000000 + 1 / 4] \<and>
   map kind (messages (handleFileUpload (Some (File ''x.csv'')) uploadOk tickA tickA' initial)) =
     [None, Some upload_preview, None] \<and>
   \<not> distinct (map msg_id
        (messages (handleFileUpload (Some (File ''x.csv'')) uploadOk tickA tickA' initial)))"
proof -
  let ?st = "handleFileUpload (Some (File ''x.csv'')) uploadOk tickA tickA' initial"
  have t: "now tickA' = now tickA \<and> random tickA' \<noteq> random tickA"
    by (simp add: tickA_def tickA'_def)
  have i: "map msg_id (messages ?st) = [1, freshId tickA, freshId tickA']"
    by (simp add: handleFileUpload_def Let_def upload_try_accepted [OF accepted_uploadOk]
          add_defs initial_def)
  have k: "map kind (messages ?st) = [None, Some upload_preview, None]"
    by (simp add: handleFileUpload_def Let_def upload_try_accepted [OF accepted_uploadOk]
          add_defs initial_def kind_def)
  from i have i': "map msg_id (messages ?st) = [1, 1700000000000 + 1 / 4, 1700000000000 + 1 / 4]"
    by (simp only: freshId_tickA freshId_tickA')
  then have "\<not> distinct (map msg_id (messages ?st))" by simp
  with t i' k show ?thesis by blast
qed

end
